theory Spec2Isabelle
  imports Main "HOL-Library.Word" "HOL-Library.Signed_Division"
begin

unbundle bit_operations_syntax

section \<open>Machine integers and byte order\<close>

type_synonym byte = "8 word"

text \<open>Go's \<open>int\<close> is 32 or 64 bits wide, depending on the platform the program is built for.\<close>

datatype int_width = W32 | W64

definition int_bits :: "int_width \<Rightarrow> nat" where
  "int_bits w = (case w of W32 \<Rightarrow> 32 | W64 \<Rightarrow> 64)"

text \<open>Arithmetic on \<open>int\<close> wraps around in two's complement.\<close>

definition wrap_int :: "int_width \<Rightarrow> int \<Rightarrow> int" where
  "wrap_int w v = signed_take_bit (int_bits w - 1) v"

text \<open>The conversion \<open>int(v)\<close> of a \<open>uint32\<close>: on a 32-bit \<open>int\<close> the bits are
  reinterpreted as two's complement, on a 64-bit \<open>int\<close> the value is kept.\<close>

definition int_of_uint32 :: "int_width \<Rightarrow> 32 word \<Rightarrow> int" where
  "int_of_uint32 w v = (case w of W32 \<Rightarrow> sint v | W64 \<Rightarrow> uint v)"

text \<open>\<open>binary.LittleEndian.PutUint32\<close> and \<open>binary.LittleEndian.Uint32\<close>.\<close>

definition le_put_uint32 :: "32 word \<Rightarrow> byte list" where
  "le_put_uint32 v =
     [ucast v, ucast (drop_bit 8 v), ucast (drop_bit 16 v), ucast (drop_bit 24 v)]"

definition le_uint32 :: "byte list \<Rightarrow> 32 word" where
  "le_uint32 b =
     ucast (b ! 0) OR push_bit 8 (ucast (b ! 1)) OR push_bit 16 (ucast (b ! 2))
       OR push_bit 24 (ucast (b ! 3))"

section \<open>Errors\<close>

text \<open>\<open>io.ReadFull\<close> reports \<open>io.EOF\<close> when no byte could be read and
  \<open>io.ErrUnexpectedEOF\<close> when the input ended after some but not all bytes.\<close>

datatype io_error = EOF | ErrUnexpectedEOF

datatype error =
    OpenError
  | CannotHaveSpanCount io_error
  | CannotHaveSpanSize io_error
  | InvalidSpanSize
  | CannotReadSpanData io_error
  | CannotUnmarshal
  | CannotUpload nat
  | PanicMakeSlice
  | FatalOutOfMemory
  | CannotMarshal nat
  | ErrNeedBaseFolderPath
  | FileCloseError
  | CannotOpenIndexFile
  | CannotAppendIndexFile
  | CannotWriteTimestampFile
  | CaughtErrorOnClosingOutputFile "error list"
  | CannotCreateOutputFolder
  | CannotCloseOutputFile error
  | CannotCloseOutputFolder error
  | CannotPrepareOutputFolderSameHour error
  | CannotSwitchToNewHour "error list"
  | CannotPrepareOutputFolderNextHour error
  | CannotCreateOutputFile
  | CannotWriteSpans nat
  | CannotRemoveExpiredOutputFolder string
  | CannotPurgeRecentExpiredOutputFolders "error list"
  | CaughtFailureOnShutdown "error list"

section \<open>Binary framing: the writer side\<close>

text \<open>\<open>marshalSpans\<close>: \<open>m p\<close> is what \<open>MarshalAppend\<close> appends for the record \<open>p\<close>,
  or \<open>None\<close> when it fails. The count and the sizes are converted to \<open>uint32\<close>.\<close>

fun marshal_loop ::
  "('p \<Rightarrow> byte list option) \<Rightarrow> nat \<Rightarrow> 'p list \<Rightarrow> byte list \<Rightarrow> error + byte list" where
  "marshal_loop m pbIdx [] buf = Inr buf"
| "marshal_loop m pbIdx (pbSpan # ps) buf =
     (case m pbSpan of
        None \<Rightarrow> Inl (CannotMarshal pbIdx)
      | Some bs \<Rightarrow>
          marshal_loop m (pbIdx + 1) ps (buf @ le_put_uint32 (word_of_nat (length bs)) @ bs))"

definition marshalSpans :: "('p \<Rightarrow> byte list option) \<Rightarrow> 'p list \<Rightarrow> error + byte list" where
  "marshalSpans m protoSpans =
     (if length protoSpans = 0 then Inr []
      else marshal_loop m 0 protoSpans (le_put_uint32 (word_of_nat (length protoSpans))))"

section \<open>Binary framing: the reader side\<close>

text \<open>A file being read is the list of its bytes still to come. \<open>io.ReadFull\<close> fails
  only where the input ends: read errors of the device are left out.\<close>

definition ReadFull :: "nat \<Rightarrow> byte list \<Rightarrow> io_error + (byte list \<times> byte list)" where
  "ReadFull n inp =
     (if n \<le> length inp then Inr (take n inp, drop n inp)
      else if inp = [] then Inl EOF
      else Inl ErrUnexpectedEOF)"

lemma ReadFull_Inr_length:
  "ReadFull n inp = Inr (b, rest) \<Longrightarrow> length rest + n = length inp \<and> length b = n"
  by (auto simp: ReadFull_def split: if_splits)

text \<open>The inner loop of \<open>ImportTraceFile\<close> (\<open>for remainSpanCount > 0\<close>): \<open>inp\<close> is what
  is left of the file, \<open>um\<close> is \<open>proto.Unmarshal\<close>.\<close>

function read_spans ::
  "int_width \<Rightarrow> (byte list \<Rightarrow> 'r option) \<Rightarrow> int \<Rightarrow> 'r list \<Rightarrow> byte list
     \<Rightarrow> error + ('r list \<times> byte list)" where
  "read_spans w um remainSpanCount traceRecords inp =
     (if remainSpanCount > 0 then
        (case ReadFull 4 inp of
           Inl e \<Rightarrow> Inl (CannotHaveSpanSize e)
         | Inr (i32buf, rest) \<Rightarrow>
             (if int_of_uint32 w (le_uint32 i32buf) < 0 then Inl InvalidSpanSize
              else if int_of_uint32 w (le_uint32 i32buf) = 0
                then read_spans w um remainSpanCount traceRecords rest
              else
                (case ReadFull (nat (int_of_uint32 w (le_uint32 i32buf))) rest of
                   Inl e \<Rightarrow> Inl (CannotReadSpanData e)
                 | Inr (spanBuf, rest') \<Rightarrow>
                     (case um spanBuf of
                        None \<Rightarrow> Inl CannotUnmarshal
                      | Some traceSpan \<Rightarrow>
                          read_spans w um (remainSpanCount - 1)
                            (traceRecords @ [traceSpan]) rest'))))
      else Inr (traceRecords, inp))"
  by pat_completeness auto
termination
  by (relation "measure (\<lambda>(w, um, n, recs, inp). length inp)")
     (auto dest!: ReadFull_Inr_length)

declare read_spans.simps [simp del]

lemma read_spans_length:
  "read_spans w um n recs inp = Inr (recs', rest) \<Longrightarrow> length rest \<le> length inp"
proof (induction w um n recs inp rule: read_spans.induct)
  case (1 w um n recs inp)
  note eq = "1.prems"[unfolded read_spans.simps[of w um n recs inp]]
  show ?case
  proof (cases "n > 0")
    case False
    with eq show ?thesis by simp
  next
    case True
    with eq obtain hdr rest1 where rf: "ReadFull 4 inp = Inr (hdr, rest1)"
      by (cases "ReadFull 4 inp") auto
    from rf have l1: "length rest1 \<le> length inp"
      by (auto dest: ReadFull_Inr_length)
    show ?thesis
    proof (cases "int_of_uint32 w (le_uint32 hdr) = 0")
      case z: True
      with True rf eq have rec: "read_spans w um n recs rest1 = Inr (recs', rest)"
        by simp
      from z have nn: "\<not> int_of_uint32 w (le_uint32 hdr) < 0" by simp
      from "1.IH"(1)[OF True rf refl nn z rec] l1 show ?thesis by simp
    next
      case nz: False
      with True rf eq have nn: "\<not> int_of_uint32 w (le_uint32 hdr) < 0"
        by (simp split: if_splits)
      from True rf eq nz nn obtain sb rest2 where
        rf2: "ReadFull (nat (int_of_uint32 w (le_uint32 hdr))) rest1 = Inr (sb, rest2)"
        by (cases "ReadFull (nat (int_of_uint32 w (le_uint32 hdr))) rest1") auto
      from True rf eq nz nn rf2 obtain r where u: "um sb = Some r"
        by (cases "um sb") auto
      from True rf eq nz nn rf2 u
      have rec: "read_spans w um (n - 1) (recs @ [r]) rest2 = Inr (recs', rest)"
        by simp
      from rf2 have "length rest2 \<le> length rest1"
        by (auto dest: ReadFull_Inr_length)
      with "1.IH"(2)[OF True rf refl nn nz rf2 refl u rec] l1
      show ?thesis by simp
    qed
  qed
qed

text \<open>\<open>make([]*tracepb.ResourceSpans, 0, remainSpanCount)\<close>, as the runtime's
  \<open>makeslice\<close> decides it: a panic when the capacity is negative or when capacity times
  pointer size exceeds the runtime's allocation limit (\<open>2^32 - 1\<close> bytes with 4-byte pointers
  on 386 and arm, where every count from \<open>2^30\<close> on panics; \<open>2^48\<close> bytes with 8-byte
  pointers on amd64 and arm64); otherwise the process dies out of memory when the machine
  cannot give that many bytes, which \<open>mem\<close> decides: \<open>mem k\<close> says that an allocation of
  \<open>k\<close> bytes succeeds. A capacity of 0 allocates nothing. Both ways of dying are values of
  \<open>error\<close>, though the program returns neither. The byte slices of the inner loop
  (\<open>make([]byte, spanSize)\<close>) have fewer than \<open>2^32\<close> bytes, and fewer than \<open>2^31\<close>
  on a 32-bit \<open>int\<close>: they stay below the limit, and their allocation is taken to succeed.\<close>

definition ptr_bytes :: "int_width \<Rightarrow> int" where
  "ptr_bytes w = (case w of W32 \<Rightarrow> 4 | W64 \<Rightarrow> 8)"

definition maxAlloc :: "int_width \<Rightarrow> int" where
  "maxAlloc w = (case w of W32 \<Rightarrow> 2 ^ 32 - 1 | W64 \<Rightarrow> 2 ^ 48)"

definition make_records :: "int_width \<Rightarrow> (int \<Rightarrow> bool) \<Rightarrow> int \<Rightarrow> error option" where
  "make_records w mem n =
     (if n < 0 \<or> n * ptr_bytes w > maxAlloc w then Some PanicMakeSlice
      else if n > 0 \<and> \<not> mem (n * ptr_bytes w) then Some FatalOutOfMemory
      else None)"

text \<open>The outer loop of \<open>ImportTraceFile\<close>, one batch per round. \<open>ups\<close> are the batches
  handed to \<open>client.UploadTraces\<close> so far, in call order; \<open>upload_fails ups b\<close> says whether
  the call for \<open>b\<close> after the calls \<open>ups\<close> returns an error. The variable \<open>err\<close> is carried
  as the source carries it: the upload assigns it, there is no \<open>return\<close> after the upload, and
  the next round's \<open>io.ReadFull\<close> assigns it again.\<close>

function import_loop ::
  "int_width \<Rightarrow> (int \<Rightarrow> bool) \<Rightarrow> (byte list \<Rightarrow> 'r option)
     \<Rightarrow> ('r list list \<Rightarrow> 'r list \<Rightarrow> bool)
     \<Rightarrow> error option \<Rightarrow> byte list \<Rightarrow> 'r list list \<Rightarrow> error option \<times> 'r list list" where
  "import_loop w mem um upload_fails err inp ups =
     (case ReadFull 4 inp of
        Inl e \<Rightarrow> (if e = EOF then None else Some (CannotHaveSpanCount e), ups)
      | Inr (i32buf, rest) \<Rightarrow>
          (case make_records w mem (int_of_uint32 w (le_uint32 i32buf)) of
             Some e \<Rightarrow> (Some e, ups)
           | None \<Rightarrow>
               (case read_spans w um (int_of_uint32 w (le_uint32 i32buf)) [] rest of
                  Inl e \<Rightarrow> (Some e, ups)
                | Inr (traceRecords, rest') \<Rightarrow>
                    (if length traceRecords > 0 then
                       import_loop w mem um upload_fails
                         (if upload_fails ups traceRecords
                          then Some (CannotUpload (length traceRecords)) else None)
                         rest' (ups @ [traceRecords])
                     else import_loop w mem um upload_fails None rest' ups))))"
  by pat_completeness auto
termination
  by (relation "measure (\<lambda>(w, mem, um, uf, err, inp, ups). length inp)")
     (auto dest!: ReadFull_Inr_length read_spans_length)

declare import_loop.simps [simp del]

text \<open>The state of a replay: the upload calls made and the paths handed to \<open>os.Open\<close>.\<close>

record 'r replay =
  uploaded :: "'r list list"
  opened :: "string list"

text \<open>\<open>ImportTraceFile\<close>: \<open>files p\<close> is the content of the file at \<open>p\<close>, \<open>None\<close> when
  \<open>os.Open\<close> fails.\<close>

definition ImportTraceFile ::
  "int_width \<Rightarrow> (int \<Rightarrow> bool) \<Rightarrow> (byte list \<Rightarrow> 'r option)
     \<Rightarrow> ('r list list \<Rightarrow> 'r list \<Rightarrow> bool)
     \<Rightarrow> (string \<Rightarrow> byte list option) \<Rightarrow> string \<Rightarrow> 'r replay \<Rightarrow> error option \<times> 'r replay" where
  "ImportTraceFile w mem um upload_fails files traceFilePath s =
     (case files traceFilePath of
        None \<Rightarrow> (Some OpenError, s\<lparr>opened := opened s @ [traceFilePath]\<rparr>)
      | Some content \<Rightarrow>
          (case import_loop w mem um upload_fails None content (uploaded s) of
             (err, ups) \<Rightarrow>
               (err, s\<lparr>uploaded := ups, opened := opened s @ [traceFilePath]\<rparr>)))"

text \<open>A directory entry: its name and whether it is a directory.\<close>

type_synonym dir_entry = "string \<times> bool"

text \<open>The loop of \<open>ImportTraceFolder\<close> over the entries of \<open>os.ReadDir\<close>;
  \<open>join\<close> is \<open>filepath.Join\<close>.\<close>

fun import_entries ::
  "int_width \<Rightarrow> (int \<Rightarrow> bool) \<Rightarrow> (byte list \<Rightarrow> 'r option)
     \<Rightarrow> ('r list list \<Rightarrow> 'r list \<Rightarrow> bool)
     \<Rightarrow> (string \<Rightarrow> byte list option) \<Rightarrow> (string \<Rightarrow> string \<Rightarrow> string) \<Rightarrow> string
     \<Rightarrow> dir_entry list \<Rightarrow> 'r replay \<Rightarrow> error option \<times> 'r replay" where
  "import_entries w mem um uf files join folderPath [] s = (None, s)"
| "import_entries w mem um uf files join folderPath ((fileName, isDir) # entries) s =
     (if isDir then import_entries w mem um uf files join folderPath entries s
      else if length fileName > 1 \<and> (fileName ! 0 = CHR ''_'' \<or> fileName ! 0 = CHR ''.'')
        then import_entries w mem um uf files join folderPath entries s
      else
        (case ImportTraceFile w mem um uf files (join folderPath fileName) s of
           (Some e, s') \<Rightarrow> (Some e, s')
         | (None, s') \<Rightarrow> import_entries w mem um uf files join folderPath entries s'))"

text \<open>\<open>ImportTraceFolder\<close>: \<open>listing folderPath\<close> is the result of \<open>os.ReadDir\<close>,
  \<open>None\<close> when it fails.\<close>

datatype folder_error = CannotReadTraceFolder | FileError error

definition ImportTraceFolder ::
  "int_width \<Rightarrow> (int \<Rightarrow> bool) \<Rightarrow> (byte list \<Rightarrow> 'r option)
     \<Rightarrow> ('r list list \<Rightarrow> 'r list \<Rightarrow> bool)
     \<Rightarrow> (string \<Rightarrow> byte list option) \<Rightarrow> (string \<Rightarrow> string \<Rightarrow> string)
     \<Rightarrow> (string \<Rightarrow> dir_entry list option) \<Rightarrow> string \<Rightarrow> 'r replay
     \<Rightarrow> folder_error option \<times> 'r replay" where
  "ImportTraceFolder w mem um uf files join listing folderPath s =
     (case listing folderPath of
        None \<Rightarrow> (Some CannotReadTraceFolder, s)
      | Some entries \<Rightarrow>
          (case import_entries w mem um uf files join folderPath entries s of
             (err, s') \<Rightarrow> (map_option FileError err, s')))"

section \<open>Naming scheme\<close>

text \<open>\<open>binary.BigEndian.PutUint32\<close> and \<open>binary.BigEndian.PutUint16\<close>.\<close>

definition be_put_uint32 :: "32 word \<Rightarrow> byte list" where
  "be_put_uint32 v =
     [ucast (drop_bit 24 v), ucast (drop_bit 16 v), ucast (drop_bit 8 v), ucast v]"

definition be_put_uint16 :: "16 word \<Rightarrow> byte list" where
  "be_put_uint16 v = [ucast (drop_bit 8 v), ucast v]"

text \<open>\<open>b32Enc\<close>: Go's \<open>encoding/base32\<close> (RFC 4648) with the alphabet
  \<open>0123456789abcdefghijklmnopqrstuv\<close> and no padding. The bytes are read as one string of
  bits, most significant bit first; the string is cut into groups of 5 bits, the last group
  filled up with zero bits; each group is the index of a character of the alphabet.\<close>

definition b32_alphabet :: string where
  "b32_alphabet = ''0123456789abcdefghijklmnopqrstuv''"

definition byte_bits :: "byte \<Rightarrow> bool list" where
  "byte_bits b = map (bit b) [7, 6, 5, 4, 3, 2, 1, 0]"

fun quintets :: "bool list \<Rightarrow> bool list list" where
  "quintets (a # b # c # d # e # rest) = [a, b, c, d, e] # quintets rest"
| "quintets [] = []"
| "quintets bs = [bs @ replicate (5 - length bs) False]"

fun bits_val :: "bool list \<Rightarrow> nat" where
  "bits_val [] = 0"
| "bits_val (b # bs) = (if b then 2 ^ length bs else 0) + bits_val bs"

definition b32_EncodeToString :: "byte list \<Rightarrow> string" where
  "b32_EncodeToString src =
     map (\<lambda>q. b32_alphabet ! bits_val q) (quintets (concat (map byte_bits src)))"

text \<open>\<open>makeOutputFileName\<close>: the serial is an \<open>int32\<close>, compared as a signed value;
  \<open>uint16(outputSn)\<close> keeps the low 16 bits.\<close>

definition makeOutputFileName :: "32 word \<Rightarrow> string" where
  "makeOutputFileName outputSn =
     (if sint outputSn > 0xFFFF then b32_EncodeToString (be_put_uint32 outputSn)
      else b32_EncodeToString (be_put_uint16 (ucast outputSn)))"

section \<open>The exporter: configuration, state and environment\<close>

definition MaxRetainHours :: "32 word" where
  "MaxRetainHours = 24 * 365"

definition DefaultRetainHours :: "32 word" where
  "DefaultRetainHours = 8"

definition DefaultFileSizeLimit :: int where
  "DefaultFileSizeLimit = 16 * 1024 * 1024"

definition purgeRangeCount :: nat where
  "purgeRangeCount = 2"

definition outputHourMask :: int where
  "outputHourMask = 0xFFFFFF"

definition outputSnBoundary :: int where
  "outputSnBoundary = 0x7FFFFFFD"

text \<open>\<open>Config\<close>; the marshalling options are the marshaller handed to \<open>marshalSpans\<close>.\<close>

record Config =
  baseFolderPath :: string
  retainHours :: "32 word"
  fileSizeLimit :: int

text \<open>\<open>FilesTraceExporter\<close>. The open file \<open>outputFp\<close> is known by its path, \<open>None\<close> is
  \<open>nil\<close>. A \<open>time.Time\<close> is kept as its UNIX seconds. The mutex is held throughout
  \<open>ExportSpans\<close> and is not part of the sequential model.\<close>

record FilesTraceExporter =
  cfg :: Config
  outputFolderPath :: string
  indexFilePath :: string
  outputHour :: "32 word"
  outputSn :: "32 word"
  outputFileName :: string
  outputFp :: "string option"
  outputStartAt :: int
  outputLastWriteAt :: int
  currentSize :: int

text \<open>The operations on the file system, each with what identifies it: \<open>outputFp.Close\<close>,
  the two steps of \<open>appendIndexRecord\<close> (opening the index file; writing the record made of
  the file name and the two timestamps), \<open>os.WriteFile\<close> of the timestamp file,
  \<open>os.MkdirAll\<close>, \<open>os.RemoveAll\<close>, \<open>os.OpenFile\<close> of a segment file and
  \<open>outputFp.Write\<close>.\<close>

datatype fs_op =
    CloseFile string
  | OpenIndexFile string
  | WriteIndexRecord string string int int
  | WriteTimestampFile string int
  | MkdirAll string
  | RemoveAll string
  | CreateFile string
  | WriteFile string "byte list"

text \<open>What the code reads from outside: whether an operation fails, given the operations
  attempted before it; \<open>filepath.Join\<close>; and the value of \<open>time.Now().Unix()\<close> at each of
  the five places that read the clock.\<close>

record env =
  fsFails :: "fs_op list \<Rightarrow> fs_op \<Rightarrow> bool"
  filepathJoin :: "string \<Rightarrow> string \<Rightarrow> string"
  nowStamp :: int
  nowPurge :: int
  nowPrepare :: int
  nowOpen :: int
  nowWrite :: int

text \<open>Every function below takes the exporter and the log of operations attempted so far, and
  returns its error (\<open>None\<close> is \<open>nil\<close>), the exporter and the log as it leaves them.\<close>

type_synonym outcome = "error option \<times> FilesTraceExporter \<times> fs_op list"

text \<open>The options of the exporter: a retention outside \<open>0 .. MaxRetainHours\<close> is clamped, a
  size limit below 1024 is raised to 1024.\<close>

definition WithBaseFolderPath :: "string \<Rightarrow> Config \<Rightarrow> Config" where
  "WithBaseFolderPath p c = c\<lparr>baseFolderPath := p\<rparr>"

definition WithRetainHours :: "32 word \<Rightarrow> Config \<Rightarrow> Config" where
  "WithRetainHours r c =
     c\<lparr>retainHours :=
         (if sint r < 0 then 0 else if sint r > sint MaxRetainHours then MaxRetainHours else r)\<rparr>"

definition WithFileSizeLimit :: "int \<Rightarrow> Config \<Rightarrow> Config" where
  "WithFileSizeLimit l c = c\<lparr>fileSizeLimit := (if l < 1024 then 1024 else l)\<rparr>"

text \<open>The exporter as \<open>NewFilesTraceExporter\<close> leaves it: the configuration, every other
  field at its zero value.\<close>

definition exporter_with :: "Config \<Rightarrow> FilesTraceExporter" where
  "exporter_with c =
     \<lparr>cfg = c, outputFolderPath = [], indexFilePath = [], outputHour = 0, outputSn = 0,
      outputFileName = [], outputFp = None, outputStartAt = 0, outputLastWriteAt = 0,
      currentSize = 0\<rparr>"

definition NewFilesTraceExporter :: "(Config \<Rightarrow> Config) list \<Rightarrow> error + FilesTraceExporter" where
  "NewFilesTraceExporter options =
     (let c = foldl (\<lambda>c opt. opt c)
                \<lparr>baseFolderPath = [], retainHours = DefaultRetainHours,
                 fileSizeLimit = DefaultFileSizeLimit\<rparr> options
      in if baseFolderPath c = [] then Inl ErrNeedBaseFolderPath else Inr (exporter_with c))"

section \<open>The exporter: closing files and folders\<close>

definition writeTimestampFile :: "env \<Rightarrow> FilesTraceExporter \<Rightarrow> fs_op list \<Rightarrow> outcome" where
  "writeTimestampFile e x log =
     (let p = filepathJoin e (outputFolderPath x) ''_t'';
          op = WriteTimestampFile p (nowStamp e)
      in (if fsFails e log op then Some CannotWriteTimestampFile else None, x, log @ [op]))"

definition appendIndexRecord :: "env \<Rightarrow> FilesTraceExporter \<Rightarrow> fs_op list \<Rightarrow> outcome" where
  "appendIndexRecord e x log =
     (if fsFails e log (OpenIndexFile (indexFilePath x))
      then (Some CannotOpenIndexFile, x, log @ [OpenIndexFile (indexFilePath x)])
      else
        (let log1 = log @ [OpenIndexFile (indexFilePath x)];
             op = WriteIndexRecord (indexFilePath x) (outputFileName x)
                    (outputStartAt x) (outputLastWriteAt x)
         in (if fsFails e log1 op then Some CannotAppendIndexFile else None, x, log1 @ [op])))"

definition closeOutputFolder :: "env \<Rightarrow> FilesTraceExporter \<Rightarrow> fs_op list \<Rightarrow> outcome" where
  "closeOutputFolder e x log =
     (if outputFolderPath x = [] then (None, x, log) else writeTimestampFile e x log)"

definition closeOutputFile :: "env \<Rightarrow> FilesTraceExporter \<Rightarrow> fs_op list \<Rightarrow> outcome" where
  "closeOutputFile e x log =
     (case outputFp x of
        None \<Rightarrow> (None, x, log)
      | Some f \<Rightarrow>
          (let errS0 = (if fsFails e log (CloseFile f) then [FileCloseError] else []);
               x1 = x\<lparr>outputFp := None, currentSize := 0\<rparr>
           in case appendIndexRecord e x1 (log @ [CloseFile f]) of
                (err1, x2, log1) \<Rightarrow>
                  (let errS = errS0 @ (case err1 of None \<Rightarrow> [] | Some e1 \<Rightarrow> [e1]);
                       x3 = x2\<lparr>outputSn := outputSn x2 + 1\<rparr>
                   in (if length errS > 0 then Some (CaughtErrorOnClosingOutputFile errS)
                       else None, x3, log1))))"

section \<open>The exporter: folders and purge\<close>

text \<open>\<open>makeOutputFolderPath\<close>: the low three bytes of the big-endian hour (\<open>buf[1:]\<close>).\<close>

definition makeOutputFolderPath :: "env \<Rightarrow> FilesTraceExporter \<Rightarrow> 32 word \<Rightarrow> string" where
  "makeOutputFolderPath e x hour =
     filepathJoin e (baseFolderPath (cfg x)) (b32_EncodeToString (tl (be_put_uint32 hour)))"

text \<open>The loop of \<open>purgeRecentExpiredOutputFolders\<close> over the offsets
  \<open>range purgeRangeCount\<close>; it stops (\<open>break\<close>) at the first negative hour.\<close>

fun purge_loop ::
  "env \<Rightarrow> FilesTraceExporter \<Rightarrow> 32 word \<Rightarrow> nat list \<Rightarrow> error list \<Rightarrow> fs_op list
     \<Rightarrow> error list \<times> fs_op list" where
  "purge_loop e x expiredHourBase [] errS log = (errS, log)"
| "purge_loop e x expiredHourBase (purgeHourOffset # offsets) errS log =
     (let expiredHour = expiredHourBase - word_of_nat purgeHourOffset
      in if sint expiredHour < 0 then (errS, log)
         else
           (let p = makeOutputFolderPath e x (expiredHour AND word_of_int outputHourMask)
            in purge_loop e x expiredHourBase offsets
                 (if fsFails e log (RemoveAll p)
                  then errS @ [CannotRemoveExpiredOutputFolder p] else errS)
                 (log @ [RemoveAll p])))"

text \<open>\<open>purgeRecentExpiredOutputFolders\<close>: the hour is \<open>int32(time.Now().Unix() / 3600)\<close>,
  Go's division truncating towards zero; the subtractions are on \<open>int32\<close>.\<close>

definition purgeRecentExpiredOutputFolders ::
  "env \<Rightarrow> FilesTraceExporter \<Rightarrow> fs_op list \<Rightarrow> outcome" where
  "purgeRecentExpiredOutputFolders e x log =
     (if sint (retainHours (cfg x)) < 1 then (None, x, log)
      else
        (let currentHour = (word_of_int (nowPurge e sdiv 3600) :: 32 word);
             expiredHourBase = currentHour - retainHours (cfg x) - 1
         in case purge_loop e x expiredHourBase [0..<purgeRangeCount] [] log of
              (errS, log1) \<Rightarrow>
                (if length errS > 0 then Some (CannotPurgeRecentExpiredOutputFolders errS)
                 else None, x, log1)))"

definition prepareOutputFolder ::
  "env \<Rightarrow> FilesTraceExporter \<Rightarrow> 32 word \<Rightarrow> fs_op list \<Rightarrow> outcome" where
  "prepareOutputFolder e x hour log =
     (let p = makeOutputFolderPath e x hour
      in if fsFails e log (MkdirAll p) then (Some CannotCreateOutputFolder, x, log @ [MkdirAll p])
         else (None,
               x\<lparr>outputFolderPath := p, indexFilePath := filepathJoin e p ''_index'',
                  outputHour := hour, outputSn := 0\<rparr>,
               log @ [MkdirAll p]))"

section \<open>The exporter: rotation and export\<close>

text \<open>The last part of \<open>prepareOutputFp\<close>, from the test of the serial number on: every
  path of the function that does not return before it ends here.\<close>

definition openOutputFile :: "env \<Rightarrow> FilesTraceExporter \<Rightarrow> fs_op list \<Rightarrow> outcome" where
  "openOutputFile e x log =
     (if sint (outputSn x) > outputSnBoundary then (None, x, log)
      else
        (let name = makeOutputFileName (outputSn x);
             outputFilePath = filepathJoin e (outputFolderPath x) name
         in if fsFails e log (CreateFile outputFilePath)
            then (Some CannotCreateOutputFile, x, log @ [CreateFile outputFilePath])
            else (None,
                  x\<lparr>outputFileName := name, outputFp := Some outputFilePath,
                     outputStartAt := nowOpen e, outputLastWriteAt := nowOpen e\<rparr>,
                  log @ [CreateFile outputFilePath])))"

text \<open>The hour of \<open>prepareOutputFp\<close>:
  \<open>int32((time.Now().Unix() / 3600) & outputHourMask)\<close>.\<close>

definition currentOutputHour :: "env \<Rightarrow> 32 word" where
  "currentOutputHour e = word_of_int ((nowPrepare e sdiv 3600) AND outputHourMask)"

definition prepareOutputFp ::
  "int_width \<Rightarrow> env \<Rightarrow> FilesTraceExporter \<Rightarrow> int \<Rightarrow> fs_op list \<Rightarrow> outcome" where
  "prepareOutputFp w e x recordSize log =
     (if currentOutputHour e = outputHour x then
        (if currentSize x \<noteq> 0
            \<and> wrap_int w (currentSize x + recordSize) \<le> fileSizeLimit (cfg x)
         then (None, x, log)
         else
           (case closeOutputFile e x log of
              (Some err, x1, log1) \<Rightarrow> (Some (CannotCloseOutputFile err), x1, log1)
            | (None, x1, log1) \<Rightarrow>
                (if outputFolderPath x1 = [] then
                   (case prepareOutputFolder e x1 (currentOutputHour e) log1 of
                      (Some err, x2, log2) \<Rightarrow>
                        (Some (CannotPrepareOutputFolderSameHour err), x2, log2)
                    | (None, x2, log2) \<Rightarrow> openOutputFile e x2 log2)
                 else openOutputFile e x1 log1)))
      else
        (case closeOutputFile e x log of
           (err0, x1, log1) \<Rightarrow>
             (case closeOutputFolder e x1 log1 of
                (err1, x2, log2) \<Rightarrow>
                  (let errS = (case err0 of None \<Rightarrow> [] | Some e0 \<Rightarrow> [CannotCloseOutputFile e0])
                             @ (case err1 of None \<Rightarrow> []
                                | Some e1 \<Rightarrow> [CannotCloseOutputFolder e1])
                   in if length errS > 0 then (Some (CannotSwitchToNewHour errS), x2, log2)
                      else
                        (case prepareOutputFolder e x2 (currentOutputHour e) log2 of
                           (Some err, x3, log3) \<Rightarrow>
                             (Some (CannotPrepareOutputFolderNextHour err), x3, log3)
                         | (None, x3, log3) \<Rightarrow>
                             (case purgeRecentExpiredOutputFolders e x3 log3 of
                                (purgeErr, x4, log4) \<Rightarrow> openOutputFile e x4 log4))))))"

text \<open>\<open>ExportSpans\<close>, on the records that \<open>tracetransform.Spans\<close> made of the spans. The
  state is updated after the write whether or not the write failed.\<close>

definition ExportSpans ::
  "int_width \<Rightarrow> ('p \<Rightarrow> byte list option) \<Rightarrow> env \<Rightarrow> FilesTraceExporter \<Rightarrow> 'p list
     \<Rightarrow> fs_op list \<Rightarrow> outcome" where
  "ExportSpans w m e x protoSpans log =
     (if length protoSpans = 0 then (None, x, log)
      else
        (case marshalSpans m protoSpans of
           Inl err \<Rightarrow> (Some err, x, log)
         | Inr buf \<Rightarrow>
             (case prepareOutputFp w e x (int (length buf)) log of
                (Some err, x1, log1) \<Rightarrow> (Some err, x1, log1)
              | (None, x1, log1) \<Rightarrow>
                  (case outputFp x1 of
                     None \<Rightarrow> (None, x1, log1)
                   | Some f \<Rightarrow>
                       (if fsFails e log1 (WriteFile f buf)
                        then Some (CannotWriteSpans (length protoSpans)) else None,
                        x1\<lparr>outputLastWriteAt := nowWrite e,
                           currentSize := wrap_int w (currentSize x1 + int (length buf))\<rparr>,
                        log1 @ [WriteFile f buf])))))"

definition Shutdown :: "env \<Rightarrow> FilesTraceExporter \<Rightarrow> fs_op list \<Rightarrow> outcome" where
  "Shutdown e x log =
     (case closeOutputFile e x log of
        (err0, x1, log1) \<Rightarrow>
          (case closeOutputFolder e x1 log1 of
             (err1, x2, log2) \<Rightarrow>
               (let errS = (case err0 of None \<Rightarrow> [] | Some e0 \<Rightarrow> [e0])
                          @ (case err1 of None \<Rightarrow> [] | Some e1 \<Rightarrow> [e1])
                in (if length errS > 0 then Some (CaughtFailureOnShutdown errS) else None,
                    x2, log2))))"

section \<open>The layout of a segment file\<close>

text \<open>The file format in the specification's words: a batch is a 4-byte little-endian count
  followed by frames, a frame is a 4-byte little-endian length followed by that many bytes.
  An item that is the empty byte string stands for a frame of length 0.\<close>

definition frame :: "byte list \<Rightarrow> byte list" where
  "frame it = le_put_uint32 (word_of_nat (length it)) @ it"

definition max_frame :: "int_width \<Rightarrow> nat" where
  "max_frame w = (case w of W32 \<Rightarrow> 2 ^ 31 | W64 \<Rightarrow> 2 ^ 32)"

definition payloads :: "byte list list \<Rightarrow> byte list list" where
  "payloads items = filter (\<lambda>it. it \<noteq> []) items"

definition decoded :: "(byte list \<Rightarrow> 'r option) \<Rightarrow> byte list list \<Rightarrow> 'r list" where
  "decoded um items = map (\<lambda>it. the (um it)) (payloads items)"

definition items_ok :: "int_width \<Rightarrow> (byte list \<Rightarrow> 'r option) \<Rightarrow> byte list list \<Rightarrow> bool" where
  "items_ok w um items =
     list_all (\<lambda>it. length it < max_frame w \<and> (it \<noteq> [] \<longrightarrow> um it \<noteq> None)) items"

definition batch_layout :: "byte list list \<Rightarrow> byte list" where
  "batch_layout items =
     le_put_uint32 (word_of_nat (length (payloads items))) @ concat (map frame items)"

definition batch_ok :: "int_width \<Rightarrow> (byte list \<Rightarrow> 'r option) \<Rightarrow> byte list list \<Rightarrow> bool" where
  "batch_ok w um b =
     (items_ok w um b \<and> (b = [] \<or> last b \<noteq> []) \<and> length (payloads b) < max_frame w)"

text \<open>A batch fits when the reader's slice for its records is made as well.\<close>

definition batch_fits ::
  "int_width \<Rightarrow> (int \<Rightarrow> bool) \<Rightarrow> (byte list \<Rightarrow> 'r option) \<Rightarrow> byte list list \<Rightarrow> bool" where
  "batch_fits w mem um b =
     (batch_ok w um b \<and> make_records w mem (int (length (payloads b))) = None)"

definition uploads_of :: "(byte list \<Rightarrow> 'r option) \<Rightarrow> byte list list list \<Rightarrow> 'r list list" where
  "uploads_of um bs = filter (\<lambda>recs. recs \<noteq> []) (map (decoded um) bs)"

text \<open>A marshaller and an unmarshaller for concrete runs: the wire format of a
  \<open>ResourceSpans\<close> message that holds nothing but a schema URL (field 3, length-delimited:
  the tag \<open>0x1A\<close>, the length, the characters) of fewer than 128 ASCII characters. The
  empty URL is the default value and takes no bytes. Every other message is refused.\<close>

definition url_marshal :: "byte list \<Rightarrow> byte list option" where
  "url_marshal url =
     (if url = [] then Some []
      else if length url < 128 \<and> list_all (\<lambda>c. c < 0x80) url
        then Some (0x1A # word_of_nat (length url) # url)
      else None)"

fun url_unmarshal :: "byte list \<Rightarrow> byte list option" where
  "url_unmarshal [] = Some []"
| "url_unmarshal (t # n # url) =
     (if t = 0x1A \<and> url \<noteq> [] \<and> length url < 128 \<and> list_all (\<lambda>c. c < 0x80) url
         \<and> n = word_of_nat (length url)
      then Some url else None)"
| "url_unmarshal bs = None"

text \<open>A record survives marshalling and unmarshalling, and its bytes are not empty and fewer
  than \<open>2^31\<close>.\<close>

definition record_roundtrips ::
  "('p \<Rightarrow> byte list option) \<Rightarrow> (byte list \<Rightarrow> 'p option) \<Rightarrow> 'p \<Rightarrow> bool" where
  "record_roundtrips m um p =
     (case m p of
        None \<Rightarrow> False
      | Some bs \<Rightarrow> bs \<noteq> [] \<and> length bs < 2 ^ 31 \<and> um bs = Some p)"

text \<open>A machine on which every allocation succeeds.\<close>

definition enough_memory :: "int \<Rightarrow> bool" where
  "enough_memory k = True"

text \<open>An uploader whose calls all succeed.\<close>

definition never_fails :: "'r list list \<Rightarrow> 'r list \<Rightarrow> bool" where
  "never_fails ups b = False"

text \<open>Folder replay in the specification's words: an entry is skipped when it is a
  directory or when its name is longer than one character and starts with \<open>_\<close> or \<open>.\<close>;
  the remaining files are replayed in listing order, up to the first error.\<close>

definition hidden_name :: "string \<Rightarrow> bool" where
  "hidden_name nm = (length nm > 1 \<and> (hd nm = CHR ''_'' \<or> hd nm = CHR ''.''))"

definition replay_candidates ::
  "(string \<Rightarrow> string \<Rightarrow> string) \<Rightarrow> string \<Rightarrow> dir_entry list \<Rightarrow> string list" where
  "replay_candidates join folderPath entries =
     map (\<lambda>e. join folderPath (fst e)) (filter (\<lambda>e. \<not> snd e \<and> \<not> hidden_name (fst e)) entries)"

fun replay_files ::
  "int_width \<Rightarrow> (int \<Rightarrow> bool) \<Rightarrow> (byte list \<Rightarrow> 'r option)
     \<Rightarrow> ('r list list \<Rightarrow> 'r list \<Rightarrow> bool)
     \<Rightarrow> (string \<Rightarrow> byte list option) \<Rightarrow> string list \<Rightarrow> 'r replay
     \<Rightarrow> error option \<times> 'r replay" where
  "replay_files w mem um uf files [] s = (None, s)"
| "replay_files w mem um uf files (p # ps) s =
     (case ImportTraceFile w mem um uf files p s of
        (Some e, s') \<Rightarrow> (Some e, s')
      | (None, s') \<Rightarrow> replay_files w mem um uf files ps s')"

text \<open>A path join for concrete runs.\<close>

definition slash_join :: "string \<Rightarrow> string \<Rightarrow> string" where
  "slash_join a b = a @ ''/'' @ b"

text \<open>What a log holds: the folders handed to \<open>os.RemoveAll\<close>, in order; whether an
  operation creates a segment file or writes to one; whether it is a removal.\<close>

fun removals :: "fs_op list \<Rightarrow> string list" where
  "removals [] = []"
| "removals (RemoveAll p # ops) = p # removals ops"
| "removals (op # ops) = removals ops"

fun opens_or_writes :: "fs_op \<Rightarrow> bool" where
  "opens_or_writes (CreateFile p) = True"
| "opens_or_writes (WriteFile p b) = True"
| "opens_or_writes op = False"

fun is_removal :: "fs_op \<Rightarrow> bool" where
  "is_removal (RemoveAll p) = True"
| "is_removal op = False"

text \<open>Retention purge in the specification's words: with
  \<open>expiredBase = currentHour - retainHours - 1\<close>, the folders of \<open>expiredBase\<close> and
  \<open>expiredBase - 1\<close>, each masked to 24 bits, as long as the hour is not negative; nothing
  when \<open>retainHours < 1\<close>.\<close>

definition expiredHourBase :: "env \<Rightarrow> FilesTraceExporter \<Rightarrow> 32 word" where
  "expiredHourBase e x = word_of_int (nowPurge e sdiv 3600) - retainHours (cfg x) - 1"

definition purge_targets :: "env \<Rightarrow> FilesTraceExporter \<Rightarrow> string list" where
  "purge_targets e x =
     (if sint (retainHours (cfg x)) < 1 then []
      else if sint (expiredHourBase e x) < 0 then []
      else makeOutputFolderPath e x (expiredHourBase e x AND 0xFFFFFF)
           # (if sint (expiredHourBase e x - 1) < 0 then []
              else [makeOutputFolderPath e x ((expiredHourBase e x - 1) AND 0xFFFFFF)]))"

text \<open>The exporters in use: what \<open>NewFilesTraceExporter\<close> returns, and what a call of
  \<open>ExportSpans\<close> or of \<open>Shutdown\<close> leaves of an exporter in use, whatever the environment
  and the operations before it. \<open>prepareOutputFp\<close> adds \<open>currentSize\<close> and \<open>recordSize\<close>
  without a check; the calls considered are those in which this sum fits the \<open>int\<close>.\<close>

definition sum_fits :: "int_width \<Rightarrow> int \<Rightarrow> bool" where
  "sum_fits w n = (n < 2 ^ (int_bits w - 1))"

inductive reachable ::
  "int_width \<Rightarrow> ('p \<Rightarrow> byte list option) \<Rightarrow> FilesTraceExporter \<Rightarrow> bool"
  for w :: int_width and m :: "'p \<Rightarrow> byte list option" where
  created: "NewFilesTraceExporter options = Inr x \<Longrightarrow> reachable w m x"
| exported:
    "reachable w m x \<Longrightarrow> ExportSpans w m e x protoSpans log = (err, x', log') \<Longrightarrow>
     (case marshalSpans m protoSpans of
        Inl merr \<Rightarrow> True
      | Inr buf \<Rightarrow> sum_fits w (currentSize x + int (length buf))) \<Longrightarrow>
     reachable w m x'"
| shut_down: "reachable w m x \<Longrightarrow> Shutdown e x log = (err, x', log') \<Longrightarrow> reachable w m x'"

text \<open>The accumulated size is 0 exactly when no file is open.\<close>

definition size_inv :: "FilesTraceExporter \<Rightarrow> bool" where
  "size_inv x = (case outputFp x of None \<Rightarrow> currentSize x = 0 | Some f \<Rightarrow> 0 < currentSize x)"

text \<open>Concrete environments and states for running the model: failure oracles, a configuration,
  a clock at 1700000000 seconds (hour 472222, folder \<open>0sq9s\<close>), and an exporter with a file
  open in that hour at a given serial and size.\<close>

definition removals_fail :: "fs_op list \<Rightarrow> fs_op \<Rightarrow> bool" where
  "removals_fail log op = is_removal op"

definition writes_fail :: "fs_op list \<Rightarrow> fs_op \<Rightarrow> bool" where
  "writes_fail log op = (case op of WriteFile p b \<Rightarrow> True | _ \<Rightarrow> False)"

definition example_cfg :: Config where
  "example_cfg = \<lparr>baseFolderPath = ''spool'', retainHours = 8, fileSizeLimit = 1024\<rparr>"

definition example_env :: "(fs_op list \<Rightarrow> fs_op \<Rightarrow> bool) \<Rightarrow> env" where
  "example_env f =
     \<lparr>fsFails = f, filepathJoin = slash_join, nowStamp = 1700000000, nowPurge = 1700000000,
      nowPrepare = 1700000000, nowOpen = 1700000000, nowWrite = 1700000001\<rparr>"

definition example_open :: "32 word \<Rightarrow> int \<Rightarrow> FilesTraceExporter" where
  "example_open sn sz =
     \<lparr>cfg = example_cfg, outputFolderPath = ''spool/0sq9s'',
      indexFilePath = ''spool/0sq9s/_index'', outputHour = 472222, outputSn = sn,
      outputFileName = makeOutputFileName sn,
      outputFp = Some (''spool/0sq9s/'' @ makeOutputFileName sn),
      outputStartAt = 1699999999, outputLastWriteAt = 1699999999, currentSize = sz\<rparr>"

definition no_failures :: "fs_op list \<Rightarrow> fs_op \<Rightarrow> bool" where
  "no_failures log op = False"

text \<open>The exporter after its first export, of the one record \<open>[1]\<close>, and the operations
  of that export.\<close>

definition example_started :: FilesTraceExporter where
  "example_started =
     \<lparr>cfg = example_cfg, outputFolderPath = ''spool/0sq9s'',
      indexFilePath = ''spool/0sq9s/_index'', outputHour = 472222, outputSn = 0,
      outputFileName = ''0000'', outputFp = Some ''spool/0sq9s/0000'',
      outputStartAt = 1700000000, outputLastWriteAt = 1700000001, currentSize = 9\<rparr>"

definition example_started_log :: "fs_op list" where
  "example_started_log =
     [MkdirAll ''spool/0sq9s'', RemoveAll ''spool/0sq9a'', RemoveAll ''spool/0sq98'',
      CreateFile ''spool/0sq9s/0000'', WriteFile ''spool/0sq9s/0000'' [1,0,0,0, 1,0,0,0, 1]]"

section \<open>Lemmas about the framing codec\<close>

lemma le_uint32_put [simp]: "le_uint32 (le_put_uint32 v) = v"
  unfolding le_uint32_def le_put_uint32_def
  apply simp
  apply (rule bit_word_eqI)
  apply (auto simp: bit_simps)
  using not_gr_zero by fastforce

lemma length_le_put [simp]: "length (le_put_uint32 v) = 4"
  by (simp add: le_put_uint32_def)

lemma uint_word_of_nat32: "n < 2 ^ 32 \<Longrightarrow> uint (word_of_nat n :: 32 word) = int n"
  by (simp add: uint_nat unat_of_nat)

lemma int_of_uint32_of_nat:
  "n < max_frame w \<Longrightarrow> int_of_uint32 w (word_of_nat n) = int n"
  by (cases w)
     (simp_all add: max_frame_def int_of_uint32_def uint_word_of_nat32 sint_uint
        signed_take_bit_int_eq_self)

lemma ReadFull_append [simp]: "length b = n \<Longrightarrow> ReadFull n (b @ rest) = Inr (b, rest)"
  by (simp add: ReadFull_def)

lemma read_spans_padding:
  "0 < k \<Longrightarrow> read_spans w um k recs (le_put_uint32 0 @ rest) = read_spans w um k recs rest"
  by (subst read_spans.simps) (cases w; simp add: int_of_uint32_def)

lemma read_spans_frame:
  assumes "0 < k" "it \<noteq> []" "length it < max_frame w" "um it = Some r"
  shows "read_spans w um k recs (frame it @ rest) = read_spans w um (k - 1) (recs @ [r]) rest"
  using assms
  by (subst read_spans.simps) (simp add: frame_def int_of_uint32_of_nat)

lemma read_spans_done: "read_spans w um 0 recs inp = Inr (recs, inp)"
  by (subst read_spans.simps) simp

lemma read_spans_items:
  "0 < k \<Longrightarrow> items_ok w um items \<Longrightarrow>
   read_spans w um (k + int (length (payloads items))) recs (concat (map frame items) @ rest)
     = read_spans w um k (recs @ decoded um items) rest"
proof (induction items arbitrary: recs)
  case Nil
  then show ?case by (simp add: payloads_def decoded_def)
next
  case (Cons it items)
  from Cons.prems have ok: "items_ok w um items" and len: "length it < max_frame w"
    by (simp_all add: items_ok_def)
  show ?case
  proof (cases "it = []")
    case True
    have pos: "0 < k + int (length (payloads items))" using Cons.prems(1) by simp
    from True have "read_spans w um (k + int (length (payloads (it # items)))) recs
        (concat (map frame (it # items)) @ rest)
      = read_spans w um (k + int (length (payloads items))) recs
        (le_put_uint32 0 @ concat (map frame items) @ rest)"
      by (simp add: payloads_def frame_def)
    also have "\<dots> = read_spans w um (k + int (length (payloads items))) recs
        (concat (map frame items) @ rest)"
      by (rule read_spans_padding [OF pos])
    also have "\<dots> = read_spans w um k (recs @ decoded um items) rest"
      by (rule Cons.IH [OF Cons.prems(1) ok])
    finally show ?thesis using True by (simp add: decoded_def payloads_def)
  next
    case False
    with Cons.prems obtain r where r: "um it = Some r"
      by (auto simp: items_ok_def)
    have pos: "0 < k + int (length (payloads (it # items)))" using Cons.prems(1) by simp
    have "read_spans w um (k + int (length (payloads (it # items)))) recs
        (concat (map frame (it # items)) @ rest)
      = read_spans w um (k + int (length (payloads (it # items)))) recs
        (frame it @ concat (map frame items) @ rest)"
      by simp
    also have "\<dots> = read_spans w um (k + int (length (payloads (it # items))) - 1) (recs @ [r])
        (concat (map frame items) @ rest)"
      using pos False len r by (rule read_spans_frame)
    also have "\<dots> = read_spans w um (k + int (length (payloads items))) (recs @ [r])
        (concat (map frame items) @ rest)"
      using False by (simp add: payloads_def)
    also have "\<dots> = read_spans w um k ((recs @ [r]) @ decoded um items) rest"
      by (rule Cons.IH [OF Cons.prems(1) ok])
    finally show ?thesis using False r by (simp add: decoded_def payloads_def)
  qed
qed


lemma read_spans_batch:
  assumes "batch_ok w um b"
  shows "read_spans w um (int (length (payloads b))) [] (concat (map frame b) @ rest)
           = Inr (decoded um b, rest)"
proof (cases "b = []")
  case True
  then show ?thesis by (simp add: payloads_def decoded_def read_spans_done)
next
  case False
  then obtain items lst where b: "b = items @ [lst]"
    by (metis append_butlast_last_id)
  with assms have lst: "lst \<noteq> []" "length lst < max_frame w" and ok: "items_ok w um items"
    by (simp_all add: batch_ok_def items_ok_def)
  from assms b lst obtain r where r: "um lst = Some r"
    by (auto simp: batch_ok_def items_ok_def)
  have "read_spans w um (int (length (payloads b))) [] (concat (map frame b) @ rest)
      = read_spans w um (1 + int (length (payloads items))) []
          (concat (map frame items) @ frame lst @ rest)"
    using b lst by (simp add: payloads_def)
  also have "\<dots> = read_spans w um 1 ([] @ decoded um items) (frame lst @ rest)"
    by (rule read_spans_items) (simp_all add: ok)
  also have "\<dots> = read_spans w um (1 - 1) (([] @ decoded um items) @ [r]) rest"
    using lst r by (intro read_spans_frame) simp_all
  also have "\<dots> = Inr (decoded um items @ [r], rest)"
    by (simp add: read_spans_done)
  finally show ?thesis using b lst r by (simp add: decoded_def payloads_def)
qed

lemma import_loop_err:
  "import_loop w mem um uf e1 inp ups = import_loop w mem um uf e2 inp ups"
  unfolding import_loop.simps [of w mem um uf e1 inp ups]
    import_loop.simps [of w mem um uf e2 inp ups]
  by (rule refl)

lemma import_loop_eof: "import_loop w mem um uf err [] ups = (None, ups)"
  by (subst import_loop.simps) (simp add: ReadFull_def)

lemma import_loop_batch:
  assumes "batch_fits w mem um b"
  shows "import_loop w mem um uf err (batch_layout b @ rest) ups
           = import_loop w mem um uf err rest (ups @ uploads_of um [b])"
proof -
  from assms have ok: "batch_ok w um b"
    and mk: "make_records w mem (int (length (payloads b))) = None"
    by (simp_all add: batch_fits_def)
  from ok have c: "int_of_uint32 w (word_of_nat (length (payloads b))) = int (length (payloads b))"
    by (simp add: batch_ok_def int_of_uint32_of_nat)
  have step: "import_loop w mem um uf err (batch_layout b @ rest) ups
      = (if length (decoded um b) > 0 then
           import_loop w mem um uf
             (if uf ups (decoded um b) then Some (CannotUpload (length (decoded um b))) else None)
             rest (ups @ [decoded um b])
         else import_loop w mem um uf None rest ups)"
    by (subst import_loop.simps)
       (simp add: batch_layout_def c mk read_spans_batch [OF ok])
  show ?thesis
  proof (cases "decoded um b = []")
    case True
    with step show ?thesis
      by (simp add: uploads_of_def import_loop_err [of w mem um uf None rest ups err])
  next
    case False
    with step show ?thesis
      by (simp add: uploads_of_def
            import_loop_err [of w mem um uf "Some (CannotUpload (length (decoded um b)))" _ _ err]
            import_loop_err [of w mem um uf None _ _ err])
  qed
qed


lemma read_spans_short_header:
  "0 < k \<Longrightarrow> length p < 4 \<Longrightarrow>
   read_spans w um k recs p = Inl (CannotHaveSpanSize (if p = [] then EOF else ErrUnexpectedEOF))"
  by (subst read_spans.simps) (simp add: ReadFull_def)





lemma read_spans_zeros:
  "0 < k \<Longrightarrow> read_spans w um k recs (replicate (4 * n) 0) = Inl (CannotHaveSpanSize EOF)"
proof (induction n)
  case 0
  then show ?case using read_spans_short_header [of k "[]" w um recs] by simp
next
  case (Suc n)
  have "replicate (4 * Suc n) (0 :: byte) = replicate 4 0 @ replicate (4 * n) 0"
    by (simp add: replicate_add [symmetric])
  also have "replicate 4 (0 :: byte) = le_put_uint32 0"
    by (simp add: le_put_uint32_def numeral_eq_Suc)
  finally show ?case
    using Suc read_spans_padding [of k w um recs "replicate (4 * n) 0"] by simp
qed

lemma int_of_uint32_less: "int_of_uint32 w v < 2 ^ 32"
proof (cases w)
  case W32
  have "sint v < 2 ^ 31" using sint_lt [of v] by simp
  with W32 show ?thesis by (simp add: int_of_uint32_def)
next
  case W64
  have "uint v < 2 ^ 32" using uint_bounded [of v] by simp
  with W64 show ?thesis by (simp add: int_of_uint32_def)
qed

lemma read_spans_count:
  "read_spans w um n recs inp = Inr (recs', rest) \<Longrightarrow>
   int (length recs') = int (length recs) + max 0 n"
proof (induction w um n recs inp rule: read_spans.induct)
  case (1 w um n recs inp)
  note eq = "1.prems"[unfolded read_spans.simps[of w um n recs inp]]
  show ?case
  proof (cases "n > 0")
    case False
    with eq show ?thesis by simp
  next
    case True
    with eq obtain hdr rest1 where rf: "ReadFull 4 inp = Inr (hdr, rest1)"
      by (cases "ReadFull 4 inp") auto
    show ?thesis
    proof (cases "int_of_uint32 w (le_uint32 hdr) = 0")
      case z: True
      with True rf eq have rec: "read_spans w um n recs rest1 = Inr (recs', rest)"
        by simp
      from z have nn: "\<not> int_of_uint32 w (le_uint32 hdr) < 0" by simp
      from "1.IH"(1)[OF True rf refl nn z rec] show ?thesis by simp
    next
      case nz: False
      with True rf eq have nn: "\<not> int_of_uint32 w (le_uint32 hdr) < 0"
        by (simp split: if_splits)
      from True rf eq nz nn obtain sb rest2 where
        rf2: "ReadFull (nat (int_of_uint32 w (le_uint32 hdr))) rest1 = Inr (sb, rest2)"
        by (cases "ReadFull (nat (int_of_uint32 w (le_uint32 hdr))) rest1") auto
      from True rf eq nz nn rf2 obtain r where u: "um sb = Some r"
        by (cases "um sb") auto
      from True rf eq nz nn rf2 u
      have rec: "read_spans w um (n - 1) (recs @ [r]) rest2 = Inr (recs', rest)"
        by simp
      from "1.IH"(2)[OF True rf refl nn nz rf2 refl u rec] True
      show ?thesis by simp
    qed
  qed
qed

lemma import_loop_batch_lengths:
  "import_loop w mem um uf err inp ups = (r, ups') \<Longrightarrow>
   list_all (\<lambda>b. length b < 2 ^ 32) ups \<Longrightarrow> list_all (\<lambda>b. length b < 2 ^ 32) ups'"
proof (induction w mem um uf err inp ups rule: import_loop.induct)
  case (1 w mem um uf err inp ups)
  note eq = "1.prems"(1)[unfolded import_loop.simps[of w mem um uf err inp ups]]
  show ?case
  proof (cases "ReadFull 4 inp")
    case (Inl a)
    with eq "1.prems"(2) show ?thesis by auto
  next
    case (Inr hr)
    then obtain hdr rest where rf: "ReadFull 4 inp = Inr (hdr, rest)" by (cases hr) simp
    show ?thesis
    proof (cases "make_records w mem (int_of_uint32 w (le_uint32 hdr))")
      case (Some a)
      with eq rf "1.prems"(2) show ?thesis by auto
    next
      case None
      show ?thesis
      proof (cases "read_spans w um (int_of_uint32 w (le_uint32 hdr)) [] rest")
        case (Inl a)
        with eq rf None "1.prems"(2) show ?thesis by auto
      next
        case (Inr rr)
        then obtain recs rest' where
          rs: "read_spans w um (int_of_uint32 w (le_uint32 hdr)) [] rest = Inr (recs, rest')"
          by (cases rr) simp
        from read_spans_count [OF rs] int_of_uint32_less [of w "le_uint32 hdr"]
        have l: "length recs < 2 ^ 32" by (simp add: max_def split: if_splits)
        show ?thesis
        proof (cases "length recs > 0")
          case True
          with eq rf None rs
          have "import_loop w mem um uf
                  (if uf ups recs then Some (CannotUpload (length recs)) else None)
                  rest' (ups @ [recs]) = (r, ups')"
            by simp
          from "1.IH"(1)[OF rf refl None rs refl True this] l "1.prems"(2)
          show ?thesis by simp
        next
          case False
          with eq rf None rs
          have "import_loop w mem um uf None rest' ups = (r, ups')" by simp
          from "1.IH"(2)[OF rf refl None rs refl False this] "1.prems"(2)
          show ?thesis by simp
        qed
      qed
    qed
  qed
qed

lemma marshal_loop_frames:
  "list_all (\<lambda>p. m p \<noteq> None) ps \<Longrightarrow>
   marshal_loop m i ps buf = Inr (buf @ concat (map (\<lambda>p. frame (the (m p))) ps))"
  by (induction ps arbitrary: i buf) (auto simp: frame_def)

lemma marshalSpans_layout:
  assumes "seq \<noteq> []" "list_all (\<lambda>r. r \<noteq> []) seq"
  shows "marshalSpans Some seq = Inr (batch_layout seq)"
proof -
  from assms(2) have p: "payloads seq = seq"
    by (simp add: payloads_def list_all_iff)
  have "list_all (\<lambda>p. Some p \<noteq> None) seq" by (simp add: list_all_iff)
  from marshal_loop_frames [of Some, OF this] assms(1) show ?thesis
    by (simp add: marshalSpans_def batch_layout_def p)
qed

lemma read_spans_W64_never_invalid:
  "read_spans W64 um n recs inp \<noteq> Inl InvalidSpanSize"
proof (induction W64 um n recs inp rule: read_spans.induct)
  case (1 um n recs inp)
  show ?case
    apply (subst read_spans.simps)
    using 1
    apply (auto split: sum.splits option.splits simp: int_of_uint32_def)
    done
qed

lemma read_spans_W32_negative:
  "0 < n \<Longrightarrow> length hdr = 4 \<Longrightarrow> sint (le_uint32 hdr) < 0 \<Longrightarrow>
   read_spans W32 um n recs (hdr @ rest) = Inl InvalidSpanSize"
  by (subst read_spans.simps) (simp add: int_of_uint32_def)

section \<open>Lemmas about folder replay\<close>

lemma ImportTraceFile_opened:
  "opened (snd (ImportTraceFile w mem um uf files p s)) = opened s @ [p]"
  by (simp add: ImportTraceFile_def split: option.splits prod.splits)

lemma import_entries_replay_files:
  "import_entries w mem um uf files join folderPath entries s
     = replay_files w mem um uf files (replay_candidates join folderPath entries) s"
proof (induction entries arbitrary: s)
  case Nil
  then show ?case by (simp add: replay_candidates_def)
next
  case (Cons e entries)
  obtain nm d where e: "e = (nm, d)" by (cases e)
  have h: "hidden_name nm \<longleftrightarrow> length nm > 1 \<and> (nm ! 0 = CHR ''_'' \<or> nm ! 0 = CHR ''.'')"
    by (cases nm) (simp_all add: hidden_name_def)
  show ?case
  proof (cases "d \<or> hidden_name nm")
    case True
    then show ?thesis using Cons.IH [of s] h
      by (auto simp: e replay_candidates_def)
  next
    case False
    then have c: "replay_candidates join folderPath (e # entries)
        = join folderPath nm # replay_candidates join folderPath entries"
      by (simp add: e replay_candidates_def)
    obtain err s' where r: "ImportTraceFile w mem um uf files (join folderPath nm) s = (err, s')"
      by (cases "ImportTraceFile w mem um uf files (join folderPath nm) s")
    from False h have "import_entries w mem um uf files join folderPath (e # entries) s
        = (case err of Some x \<Rightarrow> (Some x, s')
           | None \<Rightarrow> import_entries w mem um uf files join folderPath entries s')"
      by (auto simp: e r)
    also have "\<dots> = replay_files w mem um uf files (replay_candidates join folderPath (e # entries)) s"
      by (cases err) (simp_all add: c r Cons.IH [of s'])
    finally show ?thesis .
  qed
qed

lemma replay_files_opened:
  "\<exists>k\<le>length ps. opened (snd (replay_files w mem um uf files ps s)) = opened s @ take k ps
      \<and> (fst (replay_files w mem um uf files ps s) = None \<longrightarrow> k = length ps)"
proof (induction ps arbitrary: s)
  case Nil
  then show ?case by simp
next
  case (Cons p ps)
  obtain err s' where r: "ImportTraceFile w mem um uf files p s = (err, s')"
    by (cases "ImportTraceFile w mem um uf files p s")
  with ImportTraceFile_opened [of w mem um uf files p s] have o: "opened s' = opened s @ [p]"
    by simp
  show ?case
  proof (cases err)
    case None
    have eq: "replay_files w mem um uf files (p # ps) s = replay_files w mem um uf files ps s'"
      by (simp add: r None)
    from Cons.IH [of s'] obtain k where k: "k \<le> length ps"
      "opened (snd (replay_files w mem um uf files ps s')) = opened s' @ take k ps"
      "fst (replay_files w mem um uf files ps s') = None \<longrightarrow> k = length ps"
      by (elim exE conjE)
    have "Suc k \<le> length (p # ps)" using k(1) by simp
    moreover have "opened (snd (replay_files w mem um uf files (p # ps) s))
        = opened s @ take (Suc k) (p # ps)"
      unfolding eq k(2) o by simp
    moreover have "fst (replay_files w mem um uf files (p # ps) s) = None
        \<longrightarrow> Suc k = length (p # ps)"
      unfolding eq using k(3) by simp
    ultimately have "Suc k \<le> length (p # ps)
        \<and> opened (snd (replay_files w mem um uf files (p # ps) s))
            = opened s @ take (Suc k) (p # ps)
        \<and> (fst (replay_files w mem um uf files (p # ps) s) = None
            \<longrightarrow> Suc k = length (p # ps))"
      by (intro conjI)
    then show ?thesis by (rule exI [of _ "Suc k"])
  next
    case (Some e)
    have eq: "replay_files w mem um uf files (p # ps) s = (Some e, s')"
      by (simp add: r Some)
    have "Suc 0 \<le> length (p # ps)" by simp
    moreover have "opened (snd (replay_files w mem um uf files (p # ps) s))
        = opened s @ take (Suc 0) (p # ps)"
      unfolding eq by (simp add: o)
    moreover have "fst (replay_files w mem um uf files (p # ps) s) = None
        \<longrightarrow> Suc 0 = length (p # ps)"
      unfolding eq by simp
    ultimately have "Suc 0 \<le> length (p # ps)
        \<and> opened (snd (replay_files w mem um uf files (p # ps) s))
            = opened s @ take (Suc 0) (p # ps)
        \<and> (fst (replay_files w mem um uf files (p # ps) s) = None
            \<longrightarrow> Suc 0 = length (p # ps))"
      by (intro conjI)
    then show ?thesis by (rule exI [of _ "Suc 0"])
  qed
qed

section \<open>Lemmas about the naming scheme\<close>

lemma bits_val_less: "bits_val bs < 2 ^ length bs"
  by (induction bs) auto

lemma bits_val_inj:
  "length xs = length ys \<Longrightarrow> bits_val xs = bits_val ys \<Longrightarrow> xs = ys"
proof (induction xs ys rule: list_induct2)
  case Nil
  then show ?case by simp
next
  case (Cons x xs y ys)
  have lx: "bits_val xs < 2 ^ length ys" using bits_val_less [of xs] Cons.hyps by simp
  have ly: "bits_val ys < 2 ^ length ys" by (rule bits_val_less)
  from Cons.prems Cons.hyps lx ly have "x = y \<and> bits_val xs = bits_val ys"
    by (auto split: if_splits)
  with Cons.IH show ?case by simp
qed

lemma quintets_length5: "q \<in> set (quintets bs) \<Longrightarrow> length q = 5"
  by (induction bs rule: quintets.induct) auto

lemma take_concat_quintets: "take (length bs) (concat (quintets bs)) = bs"
  by (induction bs rule: quintets.induct) auto

lemma quintets_inj:
  assumes "length xs = length ys" "quintets xs = quintets ys"
  shows "xs = ys"
proof -
  have "xs = take (length xs) (concat (quintets xs))"
    by (simp add: take_concat_quintets)
  also have "\<dots> = take (length ys) (concat (quintets ys))"
    by (simp add: assms)
  also have "\<dots> = ys"
    by (rule take_concat_quintets)
  finally show ?thesis .
qed

lemma length_quintets: "length (quintets bs) = (length bs + 4) div 5"
  by (induction bs rule: quintets.induct) auto

lemma byte_bits_inj: "byte_bits a = byte_bits b \<Longrightarrow> a = b"
proof (rule bit_word_eqI)
  fix n assume eq: "byte_bits a = byte_bits b" and n: "n < LENGTH(8)"
  then have "n \<in> {0, 1, 2, 3, 4, 5, 6, 7}" by auto
  with eq show "bit a n = bit b n"
    by (auto simp: byte_bits_def)
qed

lemma length_byte_bits [simp]: "length (byte_bits b) = 8"
  by (simp add: byte_bits_def)

lemma bits_inj:
  "length xs = length ys \<Longrightarrow> concat (map byte_bits xs) = concat (map byte_bits ys) \<Longrightarrow> xs = ys"
proof (induction xs ys rule: list_induct2)
  case Nil
  then show ?case by simp
next
  case (Cons x xs y ys)
  from Cons.prems have "byte_bits x = byte_bits y \<and> concat (map byte_bits xs) = concat (map byte_bits ys)"
    by simp
  with Cons.IH show ?case by (simp add: byte_bits_inj)
qed

lemma length_bits: "length (concat (map byte_bits xs)) = 8 * length xs"
  by (induction xs) auto

lemma b32_char_inj:
  "i < 32 \<Longrightarrow> j < 32 \<Longrightarrow> b32_alphabet ! i = b32_alphabet ! j \<Longrightarrow> i = j"
proof -
  have d: "distinct b32_alphabet" by (simp add: b32_alphabet_def)
  have l: "length b32_alphabet = 32" by (simp add: b32_alphabet_def)
  show "i < 32 \<Longrightarrow> j < 32 \<Longrightarrow> b32_alphabet ! i = b32_alphabet ! j \<Longrightarrow> i = j"
    using d l by (simp add: nth_eq_iff_index_eq)
qed

lemma b32_inj:
  assumes "length xs = length ys" "b32_EncodeToString xs = b32_EncodeToString ys"
  shows "xs = ys"
proof -
  let ?f = "\<lambda>q. b32_alphabet ! bits_val q"
  let ?qx = "quintets (concat (map byte_bits xs))"
  let ?qy = "quintets (concat (map byte_bits ys))"
  have inj: "inj_on ?f (set ?qx \<union> set ?qy)"
  proof (rule inj_onI)
    fix p q assume p: "p \<in> set ?qx \<union> set ?qy" and q: "q \<in> set ?qx \<union> set ?qy"
      and eq: "?f p = ?f q"
    from p q have lp: "length p = 5" and lq: "length q = 5"
      by (auto dest: quintets_length5)
    from bits_val_less [of p] bits_val_less [of q] lp lq
    have "bits_val p < 32" "bits_val q < 32" by simp_all
    with eq have "bits_val p = bits_val q" by (intro b32_char_inj)
    with lp lq show "p = q" by (simp add: bits_val_inj)
  qed
  from assms(2) have "map ?f ?qx = map ?f ?qy"
    by (simp add: b32_EncodeToString_def)
  from map_inj_on [of ?f ?qx ?qy, OF this inj] have "?qx = ?qy" .
  moreover have "length (concat (map byte_bits xs)) = length (concat (map byte_bits ys))"
    by (simp add: length_bits assms(1))
  ultimately have "concat (map byte_bits xs) = concat (map byte_bits ys)"
    by (intro quintets_inj)
  with assms(1) show ?thesis by (rule bits_inj)
qed

lemma length_b32: "length (b32_EncodeToString xs) = (8 * length xs + 4) div 5"
  by (simp add: b32_EncodeToString_def length_quintets length_bits)


lemma be_put_uint32_inj: "be_put_uint32 a = be_put_uint32 b \<Longrightarrow> a = b"
proof (rule bit_word_eqI)
  fix n assume eq: "be_put_uint32 a = be_put_uint32 b" and n: "n < LENGTH(32)"
  from eq have e: "(ucast (drop_bit 24 a) :: byte) = ucast (drop_bit 24 b)"
    "(ucast (drop_bit 16 a) :: byte) = ucast (drop_bit 16 b)"
    "(ucast (drop_bit 8 a) :: byte) = ucast (drop_bit 8 b)"
    "(ucast a :: byte) = ucast b"
    by (simp_all add: be_put_uint32_def)
  consider "n < 8" | "8 \<le> n" "n < 16" | "16 \<le> n" "n < 24" | "24 \<le> n" "n < 32"
    using n by fastforce
  then show "bit a n = bit b n"
  proof cases
    case 1
    from e(4) have "bit (ucast a :: byte) n = bit (ucast b :: byte) n" by simp
    with 1 show ?thesis by (auto simp: bit_simps)
  next
    case 2
    from e(3) have "bit (ucast (drop_bit 8 a) :: byte) (n - 8) = bit (ucast (drop_bit 8 b) :: byte) (n - 8)"
      by simp
    with 2 show ?thesis by (auto simp: bit_simps)
  next
    case 3
    from e(2) have "bit (ucast (drop_bit 16 a) :: byte) (n - 16) = bit (ucast (drop_bit 16 b) :: byte) (n - 16)"
      by simp
    with 3 show ?thesis by (auto simp: bit_simps)
  next
    case 4
    from e(1) have "bit (ucast (drop_bit 24 a) :: byte) (n - 24) = bit (ucast (drop_bit 24 b) :: byte) (n - 24)"
      by simp
    with 4 show ?thesis by (auto simp: bit_simps)
  qed
qed

lemma be_put_uint16_inj: "be_put_uint16 a = be_put_uint16 b \<Longrightarrow> a = b"
proof (rule bit_word_eqI)
  fix n assume eq: "be_put_uint16 a = be_put_uint16 b" and n: "n < LENGTH(16)"
  from eq have e: "(ucast (drop_bit 8 a) :: byte) = ucast (drop_bit 8 b)"
    "(ucast a :: byte) = ucast b"
    by (simp_all add: be_put_uint16_def)
  consider "n < 8" | "8 \<le> n" "n < 16"
    using n by fastforce
  then show "bit a n = bit b n"
  proof cases
    case 1
    from e(2) have "bit (ucast a :: byte) n = bit (ucast b :: byte) n" by simp
    with 1 show ?thesis by (auto simp: bit_simps)
  next
    case 2
    from e(1) have "bit (ucast (drop_bit 8 a) :: byte) (n - 8) = bit (ucast (drop_bit 8 b) :: byte) (n - 8)"
      by simp
    with 2 show ?thesis by (auto simp: bit_simps)
  qed
qed

lemma sint_nonneg_uint: "0 \<le> sint (a :: 32 word) \<Longrightarrow> uint a = sint a"
proof -
  assume nn: "0 \<le> sint a"
  have "sint a < 2 ^ 32" using sint_lt [of a] by simp
  with nn have "take_bit 32 (sint a) = sint a" by (simp add: take_bit_int_eq_self)
  then show ?thesis using uint_sint [of a] by simp
qed

lemma small_word_ucast16:
  assumes "0 \<le> sint (a :: 32 word)" "sint a \<le> 0xFFFF"
  shows "ucast (ucast a :: 16 word) = a"
proof -
  from assms have t: "take_bit 16 (uint a) = uint a"
    by (simp add: take_bit_int_eq_self sint_nonneg_uint)
  have "uint (ucast (ucast a :: 16 word) :: 32 word) = take_bit 16 (uint a)"
    by (simp add: unsigned_ucast_eq unsigned_take_bit_eq)
  with t show ?thesis by (simp add: word_uint_eq_iff)
qed

lemma ucast16_inj:
  assumes "0 \<le> sint a" "sint a \<le> 0xFFFF" "0 \<le> sint b" "sint b \<le> 0xFFFF"
    and "(ucast (a :: 32 word) :: 16 word) = ucast b"
  shows "a = b"
proof -
  have "a = ucast (ucast a :: 16 word)"
    by (rule small_word_ucast16 [OF assms(1,2), symmetric])
  also have "\<dots> = ucast (ucast b :: 16 word)"
    by (simp only: assms(5))
  also have "\<dots> = b"
    by (rule small_word_ucast16 [OF assms(3,4)])
  finally show ?thesis .
qed

lemma file_name_examples:
  "makeOutputFileName 0 = ''0000'' \<and> makeOutputFileName 0xFFFF = ''vvvg''
   \<and> makeOutputFileName 0x10000 = ''000g000'' \<and> makeOutputFileName 0x7FFFFFFD = ''fvvvvv8''"
  by code_simp

section \<open>Lemmas about the exporter\<close>

lemma removals_append [simp]: "removals (a @ b) = removals a @ removals b"
  by (induction a rule: removals.induct) auto

lemma writeTimestampFile_facts:
  "writeTimestampFile e x log = (err, x', log') \<Longrightarrow>
   x' = x \<and> (\<exists>op. log' = log @ [op] \<and> \<not> opens_or_writes op \<and> removals [op] = [])"
  by (auto simp: writeTimestampFile_def Let_def)

lemma appendIndexRecord_facts:
  "appendIndexRecord e x log = (err, x', log') \<Longrightarrow>
   x' = x \<and> (\<exists>ops. log' = log @ ops \<and> list_all (\<lambda>op. \<not> opens_or_writes op) ops
     \<and> removals ops = [])"
  by (auto simp: appendIndexRecord_def Let_def split: if_splits)

lemma closeOutputFolder_facts:
  "closeOutputFolder e x log = (err, x', log') \<Longrightarrow>
   x' = x \<and> (\<exists>ops. log' = log @ ops \<and> list_all (\<lambda>op. \<not> opens_or_writes op) ops
     \<and> removals ops = [])"
  by (auto simp: closeOutputFolder_def dest!: writeTimestampFile_facts split: if_splits)

lemma closeOutputFile_facts:
  assumes "closeOutputFile e x log = (err, x', log')"
  shows "outputFp x' = None" "cfg x' = cfg x" "outputFolderPath x' = outputFolderPath x"
    "outputHour x' = outputHour x"
    "outputSn x' = (if outputFp x = None then outputSn x else outputSn x + 1)"
    "outputFp x = None \<longrightarrow> x' = x \<and> log' = log"
    "\<exists>ops. log' = log @ ops \<and> list_all (\<lambda>op. \<not> opens_or_writes op) ops \<and> removals ops = []"
proof -
  show "outputFp x' = None" "cfg x' = cfg x" "outputFolderPath x' = outputFolderPath x"
    "outputHour x' = outputHour x"
    "outputSn x' = (if outputFp x = None then outputSn x else outputSn x + 1)"
    "outputFp x = None \<longrightarrow> x' = x \<and> log' = log"
    using assms
    by (auto simp: closeOutputFile_def Let_def split: option.splits prod.splits
          dest!: appendIndexRecord_facts)
  show "\<exists>ops. log' = log @ ops \<and> list_all (\<lambda>op. \<not> opens_or_writes op) ops \<and> removals ops = []"
  proof (cases "outputFp x")
    case None
    with assms show ?thesis by (simp add: closeOutputFile_def)
  next
    case (Some f)
    obtain err1 x2 log1 where a: "appendIndexRecord e (x\<lparr>outputFp := None, currentSize := 0\<rparr>)
        (log @ [CloseFile f]) = (err1, x2, log1)"
      by (metis prod_cases3)
    from appendIndexRecord_facts [OF a] obtain ops where
      ops: "log1 = (log @ [CloseFile f]) @ ops" "list_all (\<lambda>op. \<not> opens_or_writes op) ops"
        "removals ops = []"
      by auto
    from assms Some a have "log' = log1"
      by (simp add: closeOutputFile_def Let_def)
    with ops show ?thesis
      by (intro exI [of _ "CloseFile f # ops"]) simp
  qed
qed

lemma prepareOutputFolder_facts:
  assumes "prepareOutputFolder e x hour log = (err, x', log')"
  shows "outputFp x' = outputFp x" "cfg x' = cfg x" "currentSize x' = currentSize x"
    "log' = log @ [MkdirAll (makeOutputFolderPath e x hour)]"
    "err = None \<longrightarrow> outputSn x' = 0"
  using assms by (auto simp: prepareOutputFolder_def Let_def split: if_splits)

lemma makeOutputFolderPath_cfg:
  "cfg x' = cfg x \<Longrightarrow> makeOutputFolderPath e x' h = makeOutputFolderPath e x h"
  by (simp add: makeOutputFolderPath_def)

lemma purge_targets_cfg: "cfg x' = cfg x \<Longrightarrow> purge_targets e x' = purge_targets e x"
  by (simp add: purge_targets_def expiredHourBase_def makeOutputFolderPath_def)

lemma purge_facts:
  assumes "purgeRecentExpiredOutputFolders e x log = (err, x', log')"
  shows "x' = x \<and> log' = log @ map RemoveAll (purge_targets e x)"
proof (cases "sint (retainHours (cfg x)) < 1")
  case True
  with assms show ?thesis
    by (simp add: purgeRecentExpiredOutputFolders_def purge_targets_def)
next
  case False
  have r: "[0..<purgeRangeCount] = [0, Suc 0]"
    by (simp add: purgeRangeCount_def upt_rec)
  from False assms show ?thesis
    by (auto simp: purgeRecentExpiredOutputFolders_def purge_targets_def expiredHourBase_def r
          Let_def outputHourMask_def split: prod.splits if_splits)
qed

lemma openOutputFile_facts:
  assumes "openOutputFile e x log = (err, x', log')"
  shows "cfg x' = cfg x"
    "(err = None \<and> x' = x \<and> log' = log \<and> sint (outputSn x) > outputSnBoundary)
     \<or> (\<exists>p. log' = log @ [CreateFile p] \<and> \<not> sint (outputSn x) > outputSnBoundary
          \<and> (err = None \<longrightarrow> outputFp x' = Some p \<and> currentSize x' = currentSize x)
          \<and> (err \<noteq> None \<longrightarrow> x' = x))"
  using assms by (auto simp: openOutputFile_def Let_def split: if_splits)

lemma purge_loop_log_indep:
  "snd (purge_loop (e\<lparr>fsFails := f2\<rparr>) x b offs errS1 log) = snd (purge_loop e x b offs errS2 log)"
proof (induction offs arbitrary: errS1 errS2 log)
  case Nil
  then show ?case by simp
next
  case (Cons a offs)
  show ?case
    by (simp add: Let_def makeOutputFolderPath_def Cons.IH)
qed

lemma purge_indep:
  "snd (purgeRecentExpiredOutputFolders (e\<lparr>fsFails := f2\<rparr>) x log)
     = snd (purgeRecentExpiredOutputFolders e x log)"
proof -
  have "snd (purge_loop (e\<lparr>fsFails := f2\<rparr>) x b offs [] log) = snd (purge_loop e x b offs [] log)"
    for b offs
    by (rule purge_loop_log_indep)
  then show ?thesis
    by (simp add: purgeRecentExpiredOutputFolders_def Let_def split: prod.splits)
       (metis snd_conv)
qed

lemma closeOutputFile_indep:
  assumes "\<forall>l op. \<not> is_removal op \<longrightarrow> f2 l op = fsFails e l op"
  shows "closeOutputFile (e\<lparr>fsFails := f2\<rparr>) x log = closeOutputFile e x log"
  by (simp add: closeOutputFile_def appendIndexRecord_def Let_def assms split: option.splits)

lemma closeOutputFolder_indep:
  assumes "\<forall>l op. \<not> is_removal op \<longrightarrow> f2 l op = fsFails e l op"
  shows "closeOutputFolder (e\<lparr>fsFails := f2\<rparr>) x log = closeOutputFolder e x log"
  by (simp add: closeOutputFolder_def writeTimestampFile_def Let_def assms)

lemma prepareOutputFolder_indep:
  assumes "\<forall>l op. \<not> is_removal op \<longrightarrow> f2 l op = fsFails e l op"
  shows "prepareOutputFolder (e\<lparr>fsFails := f2\<rparr>) x h log = prepareOutputFolder e x h log"
  by (simp add: prepareOutputFolder_def makeOutputFolderPath_def Let_def assms)

lemma openOutputFile_indep:
  assumes "\<forall>l op. \<not> is_removal op \<longrightarrow> f2 l op = fsFails e l op"
  shows "openOutputFile (e\<lparr>fsFails := f2\<rparr>) x log = openOutputFile e x log"
  by (simp add: openOutputFile_def Let_def assms)

lemma prepareOutputFp_indep:
  assumes "\<forall>l op. \<not> is_removal op \<longrightarrow> f2 l op = fsFails e l op"
  shows "prepareOutputFp w (e\<lparr>fsFails := f2\<rparr>) x S log = prepareOutputFp w e x S log"
proof -
  have h: "currentOutputHour (e\<lparr>fsFails := f2\<rparr>) = currentOutputHour e"
    by (simp add: currentOutputHour_def)
  have p: "(case purgeRecentExpiredOutputFolders (e\<lparr>fsFails := f2\<rparr>) x3 log3 of
              (purgeErr, x4, log4) \<Rightarrow> openOutputFile e x4 log4)
         = (case purgeRecentExpiredOutputFolders e x3 log3 of
              (purgeErr, x4, log4) \<Rightarrow> openOutputFile e x4 log4)" for x3 log3
    using purge_indep [where e = e and ?f2.0 = f2 and x = x3 and log = log3]
    by (cases "purgeRecentExpiredOutputFolders (e\<lparr>fsFails := f2\<rparr>) x3 log3";
        cases "purgeRecentExpiredOutputFolders e x3 log3") simp
  note i = closeOutputFile_indep [where ?f2.0 = f2 and e = e, OF assms]
    closeOutputFolder_indep [where ?f2.0 = f2 and e = e, OF assms]
    prepareOutputFolder_indep [where ?f2.0 = f2 and e = e, OF assms]
    openOutputFile_indep [where ?f2.0 = f2 and e = e, OF assms]
  show ?thesis
    by (simp only: prepareOutputFp_def h i p)
qed

lemma openOutputFile_removals:
  "openOutputFile e x log = (err, x', log') \<Longrightarrow> removals log' = removals log"
  by (auto dest!: openOutputFile_facts(2))

lemma openOutputFile_fresh:
  assumes "openOutputFile e x log = (None, x', log')" "outputFp x = None" "outputFp x' = Some f"
  shows "log' = log @ [CreateFile f] \<and> currentSize x' = currentSize x"
  using openOutputFile_facts(2) [OF assms(1)] assms(2,3) by auto

lemma prepareOutputFp_same_hour:
  assumes "currentOutputHour e = outputHour x"
    and "\<not> (currentSize x \<noteq> 0 \<and> wrap_int w (currentSize x + S) \<le> fileSizeLimit (cfg x))"
    and "closeOutputFile e x log = (err0, x1, log1)"
  shows "prepareOutputFp w e x S log =
     (case err0 of
        Some err \<Rightarrow> (Some (CannotCloseOutputFile err), x1, log1)
      | None \<Rightarrow>
          (if outputFolderPath x1 = [] then
             (case prepareOutputFolder e x1 (currentOutputHour e) log1 of
                (Some err, x2, log2) \<Rightarrow> (Some (CannotPrepareOutputFolderSameHour err), x2, log2)
              | (None, x2, log2) \<Rightarrow> openOutputFile e x2 log2)
           else openOutputFile e x1 log1))"
  using assms by (cases err0) (auto simp: prepareOutputFp_def)

lemma prepareOutputFp_new_hour:
  assumes "currentOutputHour e \<noteq> outputHour x"
    and "closeOutputFile e x log = (err0, x1, log1)"
    and "closeOutputFolder e x1 log1 = (err1, x2, log2)"
  shows "prepareOutputFp w e x S log =
     (if err0 \<noteq> None \<or> err1 \<noteq> None then
        (Some (CannotSwitchToNewHour
           ((case err0 of None \<Rightarrow> [] | Some e0 \<Rightarrow> [CannotCloseOutputFile e0])
            @ (case err1 of None \<Rightarrow> [] | Some e1 \<Rightarrow> [CannotCloseOutputFolder e1]))), x2, log2)
      else
        (case prepareOutputFolder e x2 (currentOutputHour e) log2 of
           (Some err, x3, log3) \<Rightarrow> (Some (CannotPrepareOutputFolderNextHour err), x3, log3)
         | (None, x3, log3) \<Rightarrow>
             openOutputFile e x3 (log3 @ map RemoveAll (purge_targets e x3))))"
proof -
  have p: "(case purgeRecentExpiredOutputFolders e x3 log3 of
              (purgeErr, x4, log4) \<Rightarrow> openOutputFile e x4 log4)
         = openOutputFile e x3 (log3 @ map RemoveAll (purge_targets e x3))" for x3 log3
    using purge_facts [of e x3 log3]
    by (cases "purgeRecentExpiredOutputFolders e x3 log3") simp
  from assms show ?thesis
    by (cases err0; cases err1)
       (auto simp: prepareOutputFp_def split: prod.splits option.splits dest!: purge_facts)
qed

lemma prepareOutputFp_removals_same_hour:
  assumes "currentOutputHour e = outputHour x"
    and "prepareOutputFp w e x S log = (err, x', log')"
  shows "removals log' = removals log"
proof (cases "currentSize x \<noteq> 0 \<and> wrap_int w (currentSize x + S) \<le> fileSizeLimit (cfg x)")
  case True
  with assms show ?thesis by (simp add: prepareOutputFp_def)
next
  case False
  obtain err0 x1 log1 where c: "closeOutputFile e x log = (err0, x1, log1)"
    by (metis prod_cases3)
  from closeOutputFile_facts(7) [OF c] have r1: "removals log1 = removals log" by auto
  note eq = prepareOutputFp_same_hour [OF assms(1) False c]
  show ?thesis
  proof (cases err0)
    case (Some a)
    with eq assms(2) r1 show ?thesis by simp
  next
    case None
    show ?thesis
    proof (cases "outputFolderPath x1 = []")
      case False
      with eq None assms(2) have "openOutputFile e x1 log1 = (err, x', log')" by simp
      from openOutputFile_removals [OF this] r1 show ?thesis by simp
    next
      case True
      obtain err2 x2 log2 where f: "prepareOutputFolder e x1 (currentOutputHour e) log1 = (err2, x2, log2)"
        by (metis prod_cases3)
      from prepareOutputFolder_facts(4) [OF f] r1 have r2: "removals log2 = removals log" by simp
      show ?thesis
      proof (cases err2)
        case (Some a)
        with eq None True f assms(2) r2 show ?thesis by simp
      next
        case n2: None
        with eq None True f assms(2) have "openOutputFile e x2 log2 = (err, x', log')" by simp
        from openOutputFile_removals [OF this] r2 show ?thesis by simp
      qed
    qed
  qed
qed

lemma prepareOutputFp_removals_new_hour:
  assumes "currentOutputHour e \<noteq> outputHour x"
    and "prepareOutputFp w e x S log = (err, x', log')"
  shows "removals log' = removals log
           @ (if err = None \<or> err = Some CannotCreateOutputFile then purge_targets e x else [])"
proof -
  obtain err0 x1 log1 where c: "closeOutputFile e x log = (err0, x1, log1)"
    by (metis prod_cases3)
  obtain err1 x2 log2 where d: "closeOutputFolder e x1 log1 = (err1, x2, log2)"
    by (metis prod_cases3)
  from closeOutputFile_facts(7) [OF c] have r1: "removals log1 = removals log" by auto
  from closeOutputFolder_facts [OF d] r1 have r2: "removals log2 = removals log" by auto
  from closeOutputFile_facts(2) [OF c] closeOutputFolder_facts [OF d] have c2: "cfg x2 = cfg x"
    by simp
  note eq = prepareOutputFp_new_hour [OF assms(1) c d, of w S]
  show ?thesis
  proof (cases "err0 \<noteq> None \<or> err1 \<noteq> None")
    case True
    with eq assms(2) r2 show ?thesis by auto
  next
    case False
    obtain err3 x3 log3 where f: "prepareOutputFolder e x2 (currentOutputHour e) log2 = (err3, x3, log3)"
      by (metis prod_cases3)
    from prepareOutputFolder_facts(4) [OF f] r2 have r3: "removals log3 = removals log" by simp
    from prepareOutputFolder_facts(2) [OF f] c2 have c3: "cfg x3 = cfg x" by simp
    show ?thesis
    proof (cases err3)
      case (Some a)
      with eq False f assms(2) r3 show ?thesis by auto
    next
      case None
      with eq False f assms(2)
      have o: "openOutputFile e x3 (log3 @ map RemoveAll (purge_targets e x3)) = (err, x', log')"
        by simp
      have m: "removals (map RemoveAll ts) = ts" for ts
        by (induction ts) simp_all
      from o have e: "err = None \<or> err = Some CannotCreateOutputFile"
        by (auto simp: openOutputFile_def Let_def split: if_splits)
      from openOutputFile_removals [OF o] r3 e show ?thesis
        by (simp add: m purge_targets_cfg [OF c3])
    qed
  qed
qed

lemma ev_hour: "currentOutputHour (example_env f) = 472222"
  by (simp add: currentOutputHour_def example_env_def outputHourMask_def signed_divide_int_def)

lemma prepareOutputFp_fresh:
  assumes "\<not> (currentOutputHour e = outputHour x \<and> currentSize x \<noteq> 0
              \<and> wrap_int w (currentSize x + S) \<le> fileSizeLimit (cfg x))"
    and "prepareOutputFp w e x S log = (None, x', log')"
    and "outputFp x' = Some f"
  shows "log' \<noteq> [] \<and> last log' = CreateFile f"
proof -
  obtain err0 x1 log1 where c: "closeOutputFile e x log = (err0, x1, log1)"
    by (metis prod_cases3)
  note fp1 = closeOutputFile_facts(1) [OF c]
  have fresh: "log' \<noteq> [] \<and> last log' = CreateFile f"
    if "openOutputFile e y l = (None, x', log')" "outputFp y = None" for y l
    using openOutputFile_fresh [OF that(1,2) assms(3)] by simp
  show ?thesis
  proof (cases "currentOutputHour e = outputHour x")
    case True
    with assms(1) have ns: "\<not> (currentSize x \<noteq> 0
        \<and> wrap_int w (currentSize x + S) \<le> fileSizeLimit (cfg x))"
      by simp
    note eq = prepareOutputFp_same_hour [OF True ns c]
    from eq assms(2) have n0: "err0 = None" by (cases err0) simp_all
    show ?thesis
    proof (cases "outputFolderPath x1 = []")
      case False
      with eq n0 assms(2) have "openOutputFile e x1 log1 = (None, x', log')" by simp
      from fresh [OF this fp1] show ?thesis .
    next
      case p: True
      obtain err2 x2 log2 where f: "prepareOutputFolder e x1 (currentOutputHour e) log1 = (err2, x2, log2)"
        by (metis prod_cases3)
      from eq n0 p f assms(2) have n2: "err2 = None" by (cases err2) simp_all
      with eq n0 p f assms(2) have o: "openOutputFile e x2 log2 = (None, x', log')" by simp
      from prepareOutputFolder_facts(1) [OF f] fp1 have "outputFp x2 = None" by simp
      from fresh [OF o this] show ?thesis .
    qed
  next
    case False
    obtain err1 x2 log2 where d: "closeOutputFolder e x1 log1 = (err1, x2, log2)"
      by (metis prod_cases3)
    from closeOutputFolder_facts [OF d] fp1 have fp2: "outputFp x2 = None" by simp
    note eq = prepareOutputFp_new_hour [OF False c d, of w S]
    from eq assms(2) have n: "\<not> (err0 \<noteq> None \<or> err1 \<noteq> None)" by (auto split: if_splits)
    obtain err3 x3 log3 where f: "prepareOutputFolder e x2 (currentOutputHour e) log2 = (err3, x3, log3)"
      by (metis prod_cases3)
    from eq n f assms(2) have n3: "err3 = None" by (cases err3) simp_all
    with eq n f assms(2)
    have o: "openOutputFile e x3 (log3 @ map RemoveAll (purge_targets e x3)) = (None, x', log')"
      by simp
    from prepareOutputFolder_facts(1) [OF f] fp2 have "outputFp x3 = None" by simp
    from fresh [OF o this] show ?thesis .
  qed
qed

lemma openOutputFile_sn:
  "openOutputFile e x log = (err, x', log') \<Longrightarrow> outputSn x' = outputSn x"
  by (auto simp: openOutputFile_def Let_def split: if_splits)

lemma prepareOutputFp_reaches_open:
  assumes "\<not> (currentOutputHour e = outputHour x \<and> currentSize x \<noteq> 0
              \<and> wrap_int w (currentSize x + S) \<le> fileSizeLimit (cfg x))"
    and "prepareOutputFp w e x S log = (None, x', log')"
  shows "\<exists>y l ops. openOutputFile e y l = (None, x', log') \<and> outputFp y = None
           \<and> l = log @ ops \<and> list_all (\<lambda>op. \<not> opens_or_writes op) ops"
proof -
  obtain err0 x1 log1 where c: "closeOutputFile e x log = (err0, x1, log1)"
    by (metis prod_cases3)
  note fp1 = closeOutputFile_facts(1) [OF c]
  from closeOutputFile_facts(7) [OF c] obtain ops1 where
    l1: "log1 = log @ ops1" "list_all (\<lambda>op. \<not> opens_or_writes op) ops1"
    by auto
  show ?thesis
  proof (cases "currentOutputHour e = outputHour x")
    case True
    with assms(1) have ns: "\<not> (currentSize x \<noteq> 0
        \<and> wrap_int w (currentSize x + S) \<le> fileSizeLimit (cfg x))"
      by simp
    note eq = prepareOutputFp_same_hour [OF True ns c]
    from eq assms(2) have n0: "err0 = None" by (cases err0) simp_all
    show ?thesis
    proof (cases "outputFolderPath x1 = []")
      case False
      with eq n0 assms(2) have "openOutputFile e x1 log1 = (None, x', log')" by simp
      with fp1 l1 show ?thesis by blast
    next
      case p: True
      obtain err2 x2 log2 where f: "prepareOutputFolder e x1 (currentOutputHour e) log1 = (err2, x2, log2)"
        by (metis prod_cases3)
      from eq n0 p f assms(2) have n2: "err2 = None" by (cases err2) simp_all
      with eq n0 p f assms(2) have o: "openOutputFile e x2 log2 = (None, x', log')" by simp
      from prepareOutputFolder_facts(1) [OF f] fp1 have fp2: "outputFp x2 = None" by simp
      from prepareOutputFolder_facts(4) [OF f] l1
      have "log2 = log @ (ops1 @ [MkdirAll (makeOutputFolderPath e x1 (currentOutputHour e))])"
        "list_all (\<lambda>op. \<not> opens_or_writes op)
           (ops1 @ [MkdirAll (makeOutputFolderPath e x1 (currentOutputHour e))])"
        by simp_all
      with o fp2 show ?thesis by blast
    qed
  next
    case False
    obtain err1 x2 log2 where d: "closeOutputFolder e x1 log1 = (err1, x2, log2)"
      by (metis prod_cases3)
    from closeOutputFolder_facts [OF d] fp1 have fp2: "outputFp x2 = None" by simp
    from closeOutputFolder_facts [OF d] l1 obtain ops2 where
      l2: "log2 = log @ ops2" "list_all (\<lambda>op. \<not> opens_or_writes op) ops2"
      by auto
    note eq = prepareOutputFp_new_hour [OF False c d, of w S]
    from eq assms(2) have n: "\<not> (err0 \<noteq> None \<or> err1 \<noteq> None)" by (auto split: if_splits)
    obtain err3 x3 log3 where f: "prepareOutputFolder e x2 (currentOutputHour e) log2 = (err3, x3, log3)"
      by (metis prod_cases3)
    from eq n f assms(2) have n3: "err3 = None" by (cases err3) simp_all
    with eq n f assms(2)
    have o: "openOutputFile e x3 (log3 @ map RemoveAll (purge_targets e x3)) = (None, x', log')"
      by simp
    from prepareOutputFolder_facts(1) [OF f] fp2 have fp3: "outputFp x3 = None" by simp
    have q: "list_all (\<lambda>op. \<not> opens_or_writes op) (map RemoveAll ts)" for ts
      by (induction ts) simp_all
    from prepareOutputFolder_facts(4) [OF f] l2
    have "log3 @ map RemoveAll (purge_targets e x3)
        = log @ (ops2 @ [MkdirAll (makeOutputFolderPath e x2 (currentOutputHour e))]
                 @ map RemoveAll (purge_targets e x3))"
      "list_all (\<lambda>op. \<not> opens_or_writes op)
         (ops2 @ [MkdirAll (makeOutputFolderPath e x2 (currentOutputHour e))]
            @ map RemoveAll (purge_targets e x3))"
      by (simp_all add: q)
    with o fp3 show ?thesis by blast
  qed
qed

lemma prepareOutputFp_valve:
  assumes "\<not> (currentOutputHour e = outputHour x \<and> currentSize x \<noteq> 0
              \<and> wrap_int w (currentSize x + S) \<le> fileSizeLimit (cfg x))"
    and "prepareOutputFp w e x S log = (None, x', log')"
    and "sint (outputSn x') > outputSnBoundary"
  shows "outputFp x' = None
       \<and> (\<exists>ops. log' = log @ ops \<and> list_all (\<lambda>op. \<not> opens_or_writes op) ops)"
proof -
  from prepareOutputFp_reaches_open [OF assms(1,2)] obtain y l ops where
    o: "openOutputFile e y l = (None, x', log')" and fp: "outputFp y = None"
    and l: "l = log @ ops" "list_all (\<lambda>op. \<not> opens_or_writes op) ops"
    by blast
  from openOutputFile_sn [OF o] assms(3) have "sint (outputSn y) > outputSnBoundary" by simp
  with o have "x' = y \<and> log' = l" by (simp add: openOutputFile_def)
  with fp l show ?thesis by blast
qed

lemma ExportSpans_after_prepare:
  assumes "protoSpans \<noteq> []" "marshalSpans m protoSpans = Inr buf"
    and "prepareOutputFp w e x (int (length buf)) log = (None, x1, log1)"
  shows "ExportSpans w m e x protoSpans log =
     (case outputFp x1 of
        None \<Rightarrow> (None, x1, log1)
      | Some f \<Rightarrow>
          (if fsFails e log1 (WriteFile f buf)
           then Some (CannotWriteSpans (length protoSpans)) else None,
           x1\<lparr>outputLastWriteAt := nowWrite e,
              currentSize := wrap_int w (currentSize x1 + int (length buf))\<rparr>,
           log1 @ [WriteFile f buf]))"
  using assms by (simp add: ExportSpans_def)

lemma wrap_int_id:
  "- (2 ^ (int_bits w - 1)) \<le> v \<Longrightarrow> v < 2 ^ (int_bits w - 1) \<Longrightarrow> wrap_int w v = v"
  by (simp add: wrap_int_def signed_take_bit_int_eq_self)

lemma ev_names:
  "makeOutputFileName 0 = ''0000''" "makeOutputFileName 1 = ''000g''"
  "makeOutputFileName 0x7FFFFFFD = ''fvvvvv8''"
  by code_simp+

lemma ev_marshal_one: "marshalSpans Some [[1 :: byte]] = Inr [1,0,0,0, 1,0,0,0, 1]"
  by (simp add: marshalSpans_def le_put_uint32_def)

lemma ev_marshal_big:
  "marshalSpans Some [replicate 1100 (7 :: byte)] = Inr ([1,0,0,0, 76,4,0,0] @ replicate 1100 7)"
  by (simp add: marshalSpans_def le_put_uint32_def)

lemma marshal_loop_length:
  "marshal_loop m i ps buf = Inr out \<Longrightarrow> length buf \<le> length out"
proof (induction ps arbitrary: i buf)
  case Nil
  then show ?case by simp
next
  case (Cons p ps)
  from Cons.prems obtain bs where
    "marshal_loop m (i + 1) ps (buf @ le_put_uint32 (word_of_nat (length bs)) @ bs) = Inr out"
    by (auto split: option.splits)
  from Cons.IH [OF this] show ?case by simp
qed

lemma marshalSpans_length:
  "protoSpans \<noteq> [] \<Longrightarrow> marshalSpans m protoSpans = Inr buf \<Longrightarrow> 4 \<le> length buf"
  by (auto simp: marshalSpans_def dest!: marshal_loop_length)

lemma closeOutputFile_size:
  "closeOutputFile e x log = (err, x', log') \<Longrightarrow>
   currentSize x' = (if outputFp x = None then currentSize x else 0)"
  by (auto simp: closeOutputFile_def Let_def split: option.splits prod.splits
        dest!: appendIndexRecord_facts)

lemma openOutputFile_size:
  "openOutputFile e x log = (err, x', log') \<Longrightarrow>
   currentSize x' = currentSize x \<and> (err \<noteq> None \<longrightarrow> outputFp x' = outputFp x)"
  by (auto simp: openOutputFile_def Let_def split: if_splits)

lemma prepareOutputFp_size:
  assumes ns: "\<not> (currentOutputHour e = outputHour x \<and> currentSize x \<noteq> 0
              \<and> wrap_int w (currentSize x + S) \<le> fileSizeLimit (cfg x))"
    and p: "prepareOutputFp w e x S log = (err, x', log')"
    and inv: "outputFp x = None \<longrightarrow> currentSize x = 0"
  shows "currentSize x' = 0 \<and> (err \<noteq> None \<longrightarrow> outputFp x' = None)"
proof -
  obtain err0 x1 log1 where c: "closeOutputFile e x log = (err0, x1, log1)"
    by (metis prod_cases3)
  note fp1 = closeOutputFile_facts(1) [OF c]
  from closeOutputFile_size [OF c] inv have s1: "currentSize x1 = 0" by auto
  show ?thesis
  proof (cases "currentOutputHour e = outputHour x")
    case True
    with ns have ns': "\<not> (currentSize x \<noteq> 0
        \<and> wrap_int w (currentSize x + S) \<le> fileSizeLimit (cfg x))"
      by simp
    note eq = prepareOutputFp_same_hour [OF True ns' c]
    show ?thesis
    proof (cases err0)
      case (Some a)
      with eq p fp1 s1 show ?thesis by auto
    next
      case None
      show ?thesis
      proof (cases "outputFolderPath x1 = []")
        case False
        with eq None p have "openOutputFile e x1 log1 = (err, x', log')" by simp
        from openOutputFile_size [OF this] fp1 s1 show ?thesis by simp
      next
        case t: True
        obtain err2 x2 log2 where
          f: "prepareOutputFolder e x1 (currentOutputHour e) log1 = (err2, x2, log2)"
          by (metis prod_cases3)
        from prepareOutputFolder_facts(1,3) [OF f] fp1 s1
        have 2: "outputFp x2 = None" "currentSize x2 = 0" by simp_all
        show ?thesis
        proof (cases err2)
          case (Some a)
          with eq None t f p 2 show ?thesis by auto
        next
          case n2: None
          with eq None t f p have "openOutputFile e x2 log2 = (err, x', log')" by simp
          from openOutputFile_size [OF this] 2 show ?thesis by simp
        qed
      qed
    qed
  next
    case False
    obtain err1 x2 log2 where d: "closeOutputFolder e x1 log1 = (err1, x2, log2)"
      by (metis prod_cases3)
    from closeOutputFolder_facts [OF d] fp1 s1
    have 2: "outputFp x2 = None" "currentSize x2 = 0" by simp_all
    note eq = prepareOutputFp_new_hour [OF False c d, of w S]
    show ?thesis
    proof (cases "err0 \<noteq> None \<or> err1 \<noteq> None")
      case True
      with eq p 2 show ?thesis by auto
    next
      case n: False
      obtain err3 x3 log3 where
        f: "prepareOutputFolder e x2 (currentOutputHour e) log2 = (err3, x3, log3)"
        by (metis prod_cases3)
      from prepareOutputFolder_facts(1,3) [OF f] 2
      have 3: "outputFp x3 = None" "currentSize x3 = 0" by simp_all
      show ?thesis
      proof (cases err3)
        case (Some a)
        with eq n f p 3 show ?thesis by auto
      next
        case None
        with eq n f p
        have "openOutputFile e x3 (log3 @ map RemoveAll (purge_targets e x3)) = (err, x', log')"
          by simp
        from openOutputFile_size [OF this] 3 show ?thesis by simp
      qed
    qed
  qed
qed

lemma ExportSpans_size_inv:
  assumes inv: "size_inv x"
    and ex: "ExportSpans w m e x protoSpans log = (err, x', log')"
    and fits: "case marshalSpans m protoSpans of
        Inl merr \<Rightarrow> True
      | Inr buf \<Rightarrow> sum_fits w (currentSize x + int (length buf))"
  shows "size_inv x'"
proof (cases "protoSpans = []")
  case True
  with ex inv show ?thesis by (simp add: ExportSpans_def)
next
  case ne: False
  show ?thesis
  proof (cases "marshalSpans m protoSpans")
    case (Inl a)
    with ex ne inv show ?thesis by (simp add: ExportSpans_def)
  next
    case (Inr buf)
    from marshalSpans_length [OF ne Inr] have len: "0 < int (length buf)" by auto
    from inv have nn: "0 \<le> currentSize x" and cl: "outputFp x = None \<longrightarrow> currentSize x = 0"
      by (auto simp: size_inv_def split: option.splits)
    from fits Inr have f: "currentSize x + int (length buf) < 2 ^ (int_bits w - 1)"
      by (simp add: sum_fits_def)
    have wr: "wrap_int w (c + int (length buf)) = c + int (length buf)
        \<and> 0 < c + int (length buf)"
      if "0 \<le> c" "c \<le> currentSize x" for c
    proof -
      from that len have "0 < c + int (length buf)" by linarith
      moreover from that f have "c + int (length buf) < 2 ^ (int_bits w - 1)" by linarith
      ultimately show ?thesis by (simp add: wrap_int_id)
    qed
    obtain r x1 log1 where p: "prepareOutputFp w e x (int (length buf)) log = (r, x1, log1)"
      by (metis prod_cases3)
    show ?thesis
    proof (cases "currentOutputHour e = outputHour x \<and> currentSize x \<noteq> 0
              \<and> wrap_int w (currentSize x + int (length buf)) \<le> fileSizeLimit (cfg x)")
      case True
      with p have s: "r = None" "x1 = x" "log1 = log" by (simp_all add: prepareOutputFp_def)
      from True cl obtain fp where fp: "outputFp x = Some fp" by auto
      from ex ne Inr p s fp have "x' = x\<lparr>outputLastWriteAt := nowWrite e,
          currentSize := wrap_int w (currentSize x + int (length buf))\<rparr>"
        by (auto simp: ExportSpans_def)
      with fp wr [of "currentSize x"] nn show ?thesis by (simp add: size_inv_def)
    next
      case False
      from prepareOutputFp_size [OF False p cl]
      have z: "currentSize x1 = 0" and er: "r \<noteq> None \<longrightarrow> outputFp x1 = None" by simp_all
      show ?thesis
      proof (cases r)
        case (Some a)
        with ex ne Inr p have "x' = x1" by (simp add: ExportSpans_def)
        with z er Some show ?thesis by (simp add: size_inv_def)
      next
        case None
        show ?thesis
        proof (cases "outputFp x1")
          case n1: None
          with ex ne Inr p None have "x' = x1" by (simp add: ExportSpans_def)
          with z n1 show ?thesis by (simp add: size_inv_def)
        next
          case (Some fp)
          with ex ne Inr p None have "x' = x1\<lparr>outputLastWriteAt := nowWrite e,
              currentSize := wrap_int w (currentSize x1 + int (length buf))\<rparr>"
            by (auto simp: ExportSpans_def)
          with Some z wr [of 0] nn show ?thesis by (simp add: size_inv_def)
        qed
      qed
    qed
  qed
qed

lemma Shutdown_size_inv:
  assumes "size_inv x" "Shutdown e x log = (err, x', log')"
  shows "size_inv x'"
proof -
  obtain err0 x1 log1 where c: "closeOutputFile e x log = (err0, x1, log1)"
    by (metis prod_cases3)
  obtain err1 x2 log2 where d: "closeOutputFolder e x1 log1 = (err1, x2, log2)"
    by (metis prod_cases3)
  from assms(2) c d have "x' = x2" by (simp add: Shutdown_def Let_def)
  with closeOutputFolder_facts [OF d] have "x' = x1" by simp
  with closeOutputFile_facts(1) [OF c] closeOutputFile_size [OF c] assms(1)
  show ?thesis by (auto simp: size_inv_def split: option.splits if_splits)
qed

lemma reachable_size_inv: "reachable w m x \<Longrightarrow> size_inv x"
proof (induction rule: reachable.induct)
  case (created options x)
  then show ?case
    by (auto simp: NewFilesTraceExporter_def Let_def exporter_with_def size_inv_def
          split: if_splits)
next
  case (exported x e protoSpans log err x' log')
  then show ?case by (blast intro: ExportSpans_size_inv)
next
  case (shut_down x e log err x' log')
  then show ?case by (blast intro: Shutdown_size_inv)
qed

section \<open>Claims about the framing codec\<close>

text \<open>Claim C1, as amended. Take a non-empty sequence of span records, a marshaller and an
  unmarshaller such that every record marshals to a non-empty byte string of fewer than
  \<open>2^31\<close> bytes which unmarshals to the record again; let the count be below \<open>2^32\<close> and
  let the reader's slice for that many records be made (which on 386 and arm needs a count
  below \<open>2^30\<close>). Then \<open>marshalSpans\<close> succeeds and the reader's loop, run on its output,
  reaches the clean end of input having handed exactly that sequence, in order, to the uploader
  as one batch.\<close>

theorem framing_roundtrip:
  assumes "protoSpans \<noteq> []" "length protoSpans < 2 ^ 32"
    and "make_records w mem (int (length protoSpans)) = None"
    and "list_all (record_roundtrips m um) protoSpans"
  shows "\<exists>buf. marshalSpans m protoSpans = Inr buf
           \<and> import_loop w mem um uf err buf ups = (None, ups @ [protoSpans])"
proof -
  let ?b = "map (\<lambda>p. the (m p)) protoSpans"
  from assms(4) have some: "list_all (\<lambda>p. m p \<noteq> None) protoSpans"
    by (auto simp: list_all_iff record_roundtrips_def split: option.splits)
  from assms(4) have each: "\<forall>p\<in>set protoSpans. the (m p) \<noteq> [] \<and> length (the (m p)) < 2 ^ 31
      \<and> um (the (m p)) = Some p"
    by (auto simp: list_all_iff record_roundtrips_def split: option.splits)
  then have p: "payloads ?b = ?b"
    by (simp add: payloads_def filter_id_conv)
  from each have d: "decoded um ?b = protoSpans"
    by (simp add: decoded_def p map_idI)
  have cnt: "length protoSpans < max_frame w"
  proof (cases w)
    case W32
    with assms(3) have "int (length protoSpans) * 4 \<le> 2 ^ 32 - 1"
      by (simp add: make_records_def ptr_bytes_def maxAlloc_def split: if_splits)
    with W32 show ?thesis by (simp add: max_frame_def)
  next
    case W64
    with assms(2) show ?thesis by (simp add: max_frame_def)
  qed
  have mf: "(2 :: nat) ^ 31 \<le> max_frame w"
    by (cases w) (simp_all add: max_frame_def)
  from each mf have items: "items_ok w um ?b"
    by (fastforce simp: items_ok_def list_all_iff)
  from assms(1) each have l: "last ?b \<noteq> []"
    by (simp add: last_map)
  from items l cnt assms(3) have fits: "batch_fits w mem um ?b"
    by (simp add: batch_fits_def batch_ok_def p)
  have enc: "marshalSpans m protoSpans = Inr (batch_layout ?b)"
    using marshal_loop_frames [OF some, of 0 "le_put_uint32 (word_of_nat (length protoSpans))"]
      assms(1)
    by (simp add: marshalSpans_def batch_layout_def p comp_def)
  have "import_loop w mem um uf err (batch_layout ?b @ []) ups
      = import_loop w mem um uf err [] (ups @ uploads_of um [?b])"
    by (rule import_loop_batch [OF fits])
  then have "import_loop w mem um uf err (batch_layout ?b) ups = (None, ups @ [protoSpans])"
    using assms(1) by (simp add: import_loop_eof uploads_of_def d)
  with enc show ?thesis by simp
qed

theorem framing_roundtrip_witness:
  "marshalSpans url_marshal [[0x61], [0x62, 0x63]]
     = Inr [2,0,0,0, 3,0,0,0, 0x1A,1,0x61, 4,0,0,0, 0x1A,2,0x62,0x63]
   \<and> import_loop W64 enough_memory url_unmarshal never_fails None
         [2,0,0,0, 3,0,0,0, 0x1A,1,0x61, 4,0,0,0, 0x1A,2,0x62,0x63] []
       = (None, [[[0x61], [0x62, 0x63]]])"
  using framing_roundtrip [of "[[0x61], [0x62, 0x63]]" W64 enough_memory url_marshal
      url_unmarshal never_fails None "[]"]
  by (simp add: make_records_def ptr_bytes_def maxAlloc_def enough_memory_def
        record_roundtrips_def url_marshal_def marshalSpans_def le_put_uint32_def)

text \<open>Claim C1 as stated fails for a sequence that holds an empty record: the record with the
  empty schema URL marshals to no bytes, the sequence of that one record is encoded as count
  1 and one length field 0, and the reader takes the length 0 for padding, looks for another
  length field and fails at the end of input. It fails as well where a field or an \<open>int\<close>
  cannot hold the number: a record of \<open>2^32\<close> zero bytes gets the length field 0, and the
  reader reads the record as padding up to the end of input; a record of \<open>2^31\<close> bytes
  gets the length field \<open>0x80000000\<close>, which a reader with a 32-bit \<open>int\<close> refuses as
  negative; for a sequence of \<open>2^30\<close> records \<open>make\<close> panics on a 32-bit \<open>int\<close>; and a
  sequence of \<open>2^32\<close> records gets the count field 0, while no batch that the reader
  uploads has that many records (\<open>import_loop_batch_lengths\<close>). A reader with a 64-bit
  \<open>int\<close> does decode a record of \<open>2^31\<close> bytes or more (and fewer than \<open>2^32\<close>), but
  only because its test for a negative length cannot fire there (claim C3): the amended claim
  stops at \<open>2^31\<close> for both widths.\<close>

theorem framing_roundtrip_counterexample:
  "marshalSpans url_marshal [[]] = Inr [1,0,0,0, 0,0,0,0]
   \<and> import_loop W64 enough_memory url_unmarshal never_fails None [1,0,0,0, 0,0,0,0] []
       = (Some (CannotHaveSpanSize EOF), [])
   \<and> import_loop W32 enough_memory url_unmarshal never_fails None [1,0,0,0, 0,0,0,0] []
       = (Some (CannotHaveSpanSize EOF), [])
   \<and> marshalSpans Some [replicate 4294967296 (0 :: byte)]
       = Inr ([1,0,0,0, 0,0,0,0] @ replicate 4294967296 0)
   \<and> import_loop W64 enough_memory Some never_fails None
         ([1,0,0,0, 0,0,0,0] @ replicate 4294967296 0) []
       = (Some (CannotHaveSpanSize EOF), [])
   \<and> marshalSpans Some [replicate 2147483648 (0 :: byte)]
       = Inr ([1,0,0,0, 0,0,0,0x80] @ replicate 2147483648 0)
   \<and> import_loop W32 enough_memory Some never_fails None
         ([1,0,0,0, 0,0,0,0x80] @ replicate 2147483648 0) []
       = (Some InvalidSpanSize, [])
   \<and> marshalSpans Some (replicate 1073741824 [1 :: byte])
       = Inr ([0,0,0,0x40] @ concat (replicate 1073741824 [1,0,0,0, 1]))
   \<and> import_loop W32 enough_memory Some never_fails None
         ([0,0,0,0x40] @ concat (replicate 1073741824 [1,0,0,0, 1])) []
       = (Some PanicMakeSlice, [])
   \<and> marshalSpans Some (replicate 4294967296 [1 :: byte])
       = Inr ([0,0,0,0] @ concat (replicate 4294967296 [1,0,0,0, 1]))
   \<and> snd (import_loop W64 enough_memory Some never_fails None
         ([0,0,0,0] @ concat (replicate 4294967296 [1,0,0,0, 1])) [])
       \<noteq> [replicate 4294967296 [1]]"
proof -
  have 1: "marshalSpans url_marshal [[]] = Inr [1,0,0,0, 0,0,0,0]"
    by (simp add: marshalSpans_def le_put_uint32_def url_marshal_def)
  have 2: "import_loop w enough_memory url_unmarshal never_fails None [1,0,0,0, 0,0,0,0] []
      = (Some (CannotHaveSpanSize EOF), [])" for w
    by (cases w)
       (simp_all add: import_loop.simps read_spans.simps ReadFull_def le_uint32_def
          int_of_uint32_def make_records_def ptr_bytes_def maxAlloc_def enough_memory_def)
  have 3: "marshalSpans Some [replicate 4294967296 (0 :: byte)]
      = Inr ([1,0,0,0, 0,0,0,0] @ replicate 4294967296 0)"
    by (simp add: marshalSpans_def le_put_uint32_def)
  have "read_spans W64 Some 1 [] (replicate (4 * 1073741824) 0) = Inl (CannotHaveSpanSize EOF)"
    by (rule read_spans_zeros) simp
  then have "read_spans W64 Some 1 [] (le_put_uint32 0 @ replicate 4294967296 0)
      = Inl (CannotHaveSpanSize EOF)"
    using read_spans_padding [of 1 W64 Some "[]" "replicate 4294967296 0"] by simp
  then have pad: "read_spans W64 Some 1 [] (0 # 0 # 0 # 0 # replicate 4294967296 0)
      = Inl (CannotHaveSpanSize EOF)"
    by (simp add: le_put_uint32_def)
  have 4: "import_loop W64 enough_memory Some never_fails None
      ([1,0,0,0, 0,0,0,0] @ replicate 4294967296 0) [] = (Some (CannotHaveSpanSize EOF), [])"
    by (subst import_loop.simps)
       (simp add: pad ReadFull_def le_uint32_def int_of_uint32_def make_records_def ptr_bytes_def
          maxAlloc_def enough_memory_def)
  have ne: "list_all (\<lambda>r. r \<noteq> []) (replicate 1073741824 [1 :: byte])"
    by (simp add: list_all_iff)
  have 5: "marshalSpans Some (replicate 1073741824 [1 :: byte])
      = Inr ([0,0,0,0x40] @ concat (replicate 1073741824 [1,0,0,0, 1]))"
    using marshalSpans_layout [OF _ ne] ne
    by (simp add: batch_layout_def payloads_def list_all_iff filter_id_conv frame_def
          le_put_uint32_def map_replicate)
  have 6: "import_loop W32 enough_memory Some never_fails None
      ([0,0,0,0x40] @ concat (replicate 1073741824 [1,0,0,0, 1])) [] = (Some PanicMakeSlice, [])"
    by (subst import_loop.simps)
       (simp add: ReadFull_def le_uint32_def int_of_uint32_def make_records_def ptr_bytes_def
          maxAlloc_def)
  have 7: "marshalSpans Some [replicate 2147483648 (0 :: byte)]
      = Inr ([1,0,0,0, 0,0,0,0x80] @ replicate 2147483648 0)"
    by (simp add: marshalSpans_def le_put_uint32_def)
  have "read_spans W32 Some 1 [] ([0,0,0,0x80] @ replicate 2147483648 0) = Inl InvalidSpanSize"
    by (rule read_spans_W32_negative) (simp_all add: le_uint32_def)
  then have neg: "read_spans W32 Some 1 [] (0 # 0 # 0 # 0x80 # replicate 2147483648 0)
      = Inl InvalidSpanSize"
    by simp
  have 8: "import_loop W32 enough_memory Some never_fails None
      ([1,0,0,0, 0,0,0,0x80] @ replicate 2147483648 0) [] = (Some InvalidSpanSize, [])"
    by (subst import_loop.simps)
       (simp add: neg ReadFull_def le_uint32_def int_of_uint32_def make_records_def ptr_bytes_def
          maxAlloc_def enough_memory_def)
  have ne': "list_all (\<lambda>r. r \<noteq> []) (replicate 4294967296 [1 :: byte])"
    by (simp add: list_all_iff)
  have 9: "marshalSpans Some (replicate 4294967296 [1 :: byte])
      = Inr ([0,0,0,0] @ concat (replicate 4294967296 [1,0,0,0, 1]))"
    using marshalSpans_layout [OF _ ne'] ne'
    by (simp add: batch_layout_def payloads_def list_all_iff filter_id_conv frame_def
          le_put_uint32_def map_replicate)
  have "list_all (\<lambda>b. length b < 2 ^ 32)
      (snd (import_loop W64 enough_memory Some never_fails None
         ([0,0,0,0] @ concat (replicate 4294967296 [1 :: byte,0,0,0, 1])) []))"
    by (rule import_loop_batch_lengths [OF surjective_pairing]) simp
  then have 10: "snd (import_loop W64 enough_memory Some never_fails None
         ([0,0,0,0] @ concat (replicate 4294967296 [1,0,0,0, 1])) [])
       \<noteq> [replicate 4294967296 [1 :: byte]]"
    by auto
  from 1 2 [of W64] 2 [of W32] 3 4 7 8 5 6 9 10 show ?thesis by simp
qed

text \<open>Claim C4. While a batch with declared count \<open>N\<close> is being decoded (\<open>0 < n\<close> records
  still to come), a length field equal to 0 changes nothing but the position: the loop goes on
  after its 4 bytes with the same remaining count and the same records. So a batch laid out
  with zero-length frames between its records decodes without error to exactly its non-empty
  records, the declared count being the number of non-empty records, and the input that
  follows the batch is left untouched.\<close>

theorem zero_length_frames_are_padding:
  assumes "0 < n" "batch_ok w um b"
  shows "read_spans w um n recs (le_put_uint32 0 @ rest) = read_spans w um n recs rest
       \<and> read_spans w um (int (length (payloads b))) [] (concat (map frame b) @ rest')
           = Inr (decoded um b, rest')"
  using read_spans_padding [OF assms(1)] read_spans_batch [OF assms(2)] by simp

theorem zero_length_frames_are_padding_witness:
  "read_spans W64 Some 1 [[9 :: byte]] ([0,0,0,0] @ [1,0,0,0, 7])
     = read_spans W64 Some 1 [[9]] [1,0,0,0, 7]
   \<and> read_spans W64 Some 2 [] ([0,0,0,0, 1,0,0,0, 5, 0,0,0,0, 0,0,0,0, 2,0,0,0, 6,7] @ [8, 8])
     = Inr ([[5], [6, 7]], [8, 8])"
  using zero_length_frames_are_padding
    [of 1 W64 Some "[[], [5], [], [], [6, 7]]" "[[9]]" "[1,0,0,0, 7]" "[8, 8]"]
  by (simp add: batch_ok_def items_ok_def max_frame_def payloads_def decoded_def frame_def
        le_put_uint32_def)




text \<open>Claim C3. The reader converts the length field with \<open>int(...)\<close> and then tests
  \<open>spanSize < 0\<close>. On a 64-bit \<open>int\<close> the conversion of a \<open>uint32\<close> is never negative
  (\<open>read_spans_W64_never_invalid\<close>), so a length field of \<open>0x80000000\<close> is taken as a
  payload size of \<open>2^31\<close> bytes and the reader tries to read that payload; only on a 32-bit
  \<open>int\<close> is the frame rejected as invalid (\<open>read_spans_W32_negative\<close>).\<close>

theorem negative_length_not_rejected_on_64bit:
  "import_loop W64 enough_memory Some never_fails None [1,0,0,0, 0,0,0,0x80, 1,2,3] []
     = (Some (CannotReadSpanData ErrUnexpectedEOF), [])
   \<and> import_loop W64 enough_memory Some never_fails None [1,0,0,0, 0,0,0,0x80] []
     = (Some (CannotReadSpanData EOF), [])
   \<and> import_loop W32 enough_memory Some never_fails None [1,0,0,0, 0,0,0,0x80, 1,2,3] []
     = (Some InvalidSpanSize, [])"
  by (simp add: import_loop.simps read_spans.simps ReadFull_def le_uint32_def int_of_uint32_def
        make_records_def ptr_bytes_def maxAlloc_def enough_memory_def)

section \<open>Claims about folder replay\<close>

text \<open>Claim C8. For every directory listing, \<open>ImportTraceFolder\<close> does what replaying the
  candidate files does: the candidates are the entries that are not directories and whose
  name is not both longer than one character and starting with \<open>_\<close> or \<open>.\<close> (so a
  one-character name \<open>_\<close> or \<open>.\<close> is a candidate), taken in listing order without sorting;
  replay stops at the first file that returns an error. The files opened are therefore a
  prefix of the candidates, and all of them when no error is returned.\<close>

theorem folder_replay_filtering:
  assumes "listing folderPath = Some entries"
  shows "ImportTraceFolder w mem um uf files join listing folderPath s
           = (map_option FileError
                (fst (replay_files w mem um uf files (replay_candidates join folderPath entries) s)),
              snd (replay_files w mem um uf files (replay_candidates join folderPath entries) s))
       \<and> (\<exists>k\<le>length (replay_candidates join folderPath entries).
             opened (snd (ImportTraceFolder w mem um uf files join listing folderPath s))
               = opened s @ take k (replay_candidates join folderPath entries)
             \<and> (fst (ImportTraceFolder w mem um uf files join listing folderPath s) = None
                  \<longrightarrow> k = length (replay_candidates join folderPath entries)))"
proof -
  let ?r = "replay_files w mem um uf files (replay_candidates join folderPath entries) s"
  have eq: "ImportTraceFolder w mem um uf files join listing folderPath s
      = (map_option FileError (fst ?r), snd ?r)"
    by (simp add: ImportTraceFolder_def assms import_entries_replay_files split: prod.splits)
  from replay_files_opened [of "replay_candidates join folderPath entries" w mem um uf files s]
  show ?thesis unfolding eq by simp
qed

theorem folder_replay_filtering_witness:
  "ImportTraceFolder W64 enough_memory Some never_fails
     [''d/_'' \<mapsto> [], ''d/0000'' \<mapsto> [1,0,0,0], ''d/0001'' \<mapsto> []] slash_join
     [''d'' \<mapsto> [(''sub'', True), (''_index'', False), (''_'', False), (''.t'', False),
                  (''0000'', False), (''0001'', False)]]
     ''d'' \<lparr>uploaded = [], opened = []\<rparr>
   = (Some (FileError (CannotHaveSpanSize EOF)),
      \<lparr>uploaded = [], opened = [''d/_'', ''d/0000'']\<rparr>)"
  using folder_replay_filtering
    [of "[''d'' \<mapsto> [(''sub'', True), (''_index'', False), (''_'', False), (''.t'', False),
                  (''0000'', False), (''0001'', False)]]" "''d''"
        "[(''sub'', True), (''_index'', False), (''_'', False), (''.t'', False),
                  (''0000'', False), (''0001'', False)]"
        W64 enough_memory Some never_fails
        "[''d/_'' \<mapsto> [], ''d/0000'' \<mapsto> [1,0,0,0], ''d/0001'' \<mapsto> []]" slash_join
        "\<lparr>uploaded = [], opened = []\<rparr>"]
  by (simp add: replay_candidates_def hidden_name_def slash_join_def ImportTraceFile_def
        import_loop.simps read_spans.simps ReadFull_def le_uint32_def int_of_uint32_def
        make_records_def ptr_bytes_def maxAlloc_def enough_memory_def)

section \<open>Claims about the naming scheme\<close>

text \<open>Claim C10. On the serial numbers from 0 to \<open>0x7FFFFFFD\<close> the file-naming function is
  injective: two serials have the same name only if they are equal. A serial up to
  \<open>0xFFFF\<close> has a name of 4 characters, a larger one a name of 7 characters.\<close>

theorem file_name_injective:
  assumes "0 \<le> sint a" "sint a \<le> 0x7FFFFFFD" "0 \<le> sint b" "sint b \<le> 0x7FFFFFFD"
  shows "(makeOutputFileName a = makeOutputFileName b \<longleftrightarrow> a = b)
       \<and> length (makeOutputFileName a) = (if sint a \<le> 0xFFFF then 4 else 7)"
proof -
  have len: "length (makeOutputFileName x) = (if sint x \<le> 0xFFFF then 4 else 7)" for x
    by (simp add: makeOutputFileName_def length_b32 be_put_uint32_def be_put_uint16_def)
  have "a = b" if eq: "makeOutputFileName a = makeOutputFileName b"
  proof (cases "sint a \<le> 0xFFFF")
    case True
    from eq len [of a] len [of b] True have b16: "sint b \<le> 0xFFFF"
      by (simp split: if_splits)
    from eq True b16
    have "b32_EncodeToString (be_put_uint16 (ucast a)) = b32_EncodeToString (be_put_uint16 (ucast b))"
      by (simp add: makeOutputFileName_def)
    then have "be_put_uint16 (ucast a) = be_put_uint16 (ucast b)"
      by (intro b32_inj) (simp_all add: be_put_uint16_def)
    then have "(ucast a :: 16 word) = ucast b" by (rule be_put_uint16_inj)
    with assms(1,3) True b16 show ?thesis by (intro ucast16_inj)
  next
    case False
    from eq len [of a] len [of b] False have b32: "\<not> sint b \<le> 0xFFFF"
      by (simp split: if_splits)
    from eq False b32
    have "b32_EncodeToString (be_put_uint32 a) = b32_EncodeToString (be_put_uint32 b)"
      by (simp add: makeOutputFileName_def)
    then have "be_put_uint32 a = be_put_uint32 b"
      by (intro b32_inj) (simp_all add: be_put_uint32_def)
    then show ?thesis by (rule be_put_uint32_inj)
  qed
  with len [of a] show ?thesis by auto
qed

theorem file_name_injective_witness:
  "makeOutputFileName 0xFFFF \<noteq> makeOutputFileName 0x10000
   \<and> length (makeOutputFileName 0xFFFF) = 4 \<and> length (makeOutputFileName 0x10000) = 7"
  using file_name_injective [of "0xFFFF" "0x10000"] file_name_injective [of "0x10000" "0xFFFF"]
  by simp

section \<open>Claims about rotation, purge and export\<close>

text \<open>Claim C2. Take an exporter in use, with a file open whose hour bucket is the current
  one, and a write request whose encoded buffer has \<open>S\<close> bytes, size plus \<open>S\<close> fitting
  the \<open>int\<close>. If the accumulated size is 0 or size plus \<open>S\<close> is at most
  \<open>fileSizeLimit\<close>, the export writes the buffer to the open file and does nothing else: no
  close, no index record, no new file; the serial number and every other field but the time of
  the last write and the size stay. On an exporter in use a file that is open when a call
  starts has a size above 0 (\<open>reachable_size_inv\<close>). A file is open with size 0 only inside a
  call, between \<open>prepareOutputFp\<close> and the write: this is the state \<open>FileOpen(h, sn, 0)\<close>
  that the specification's transitions lead to. That file was created by this call, and the
  export writes the whole buffer to it whatever \<open>S\<close> is, also when \<open>S\<close> alone exceeds
  \<open>fileSizeLimit\<close>.\<close>

theorem rotation_stay_open:
  assumes "reachable w m x" "protoSpans \<noteq> []" "marshalSpans m protoSpans = Inr buf"
    and "sum_fits w (currentSize x + int (length buf))"
  shows "(currentOutputHour e = outputHour x \<and> outputFp x = Some f
          \<and> (currentSize x = 0 \<or> currentSize x + int (length buf) \<le> fileSizeLimit (cfg x))
          \<longrightarrow> ExportSpans w m e x protoSpans log =
               (if fsFails e log (WriteFile f buf)
                then Some (CannotWriteSpans (length protoSpans)) else None,
                x\<lparr>outputLastWriteAt := nowWrite e,
                   currentSize := currentSize x + int (length buf)\<rparr>,
                log @ [WriteFile f buf]))
       \<and> (prepareOutputFp w e x (int (length buf)) log = (None, x1, log1)
          \<and> outputFp x1 = Some f1 \<and> currentSize x1 = 0
          \<longrightarrow> log1 \<noteq> [] \<and> last log1 = CreateFile f1
              \<and> ExportSpans w m e x protoSpans log =
                  (if fsFails e log1 (WriteFile f1 buf)
                   then Some (CannotWriteSpans (length protoSpans)) else None,
                   x1\<lparr>outputLastWriteAt := nowWrite e, currentSize := int (length buf)\<rparr>,
                   log1 @ [WriteFile f1 buf]))"
proof -
  from reachable_size_inv [OF assms(1)] have inv: "size_inv x" .
  then have nn: "0 \<le> currentSize x"
    by (auto simp: size_inv_def split: option.splits)
  from marshalSpans_length [OF assms(2,3)] have len: "0 < int (length buf)" by auto
  from assms(4) have f: "currentSize x + int (length buf) < 2 ^ (int_bits w - 1)"
    by (simp add: sum_fits_def)
  have wr: "wrap_int w (c + int (length buf)) = c + int (length buf)
      \<and> 0 < c + int (length buf)"
    if "0 \<le> c" "c \<le> currentSize x" for c
  proof -
    from that len have "0 < c + int (length buf)" by linarith
    moreover from that f have "c + int (length buf) < 2 ^ (int_bits w - 1)" by linarith
    ultimately show ?thesis by (simp add: wrap_int_id)
  qed
  have 1: "ExportSpans w m e x protoSpans log =
       (if fsFails e log (WriteFile f buf)
        then Some (CannotWriteSpans (length protoSpans)) else None,
        x\<lparr>outputLastWriteAt := nowWrite e, currentSize := currentSize x + int (length buf)\<rparr>,
        log @ [WriteFile f buf])"
    if a: "currentOutputHour e = outputHour x" "outputFp x = Some f"
      "currentSize x = 0 \<or> currentSize x + int (length buf) \<le> fileSizeLimit (cfg x)"
  proof -
    from inv a(2) have pos: "0 < currentSize x" by (simp add: size_inv_def)
    with a(3) have "currentSize x + int (length buf) \<le> fileSizeLimit (cfg x)" by simp
    with a(1) pos wr [of "currentSize x"]
    have "prepareOutputFp w e x (int (length buf)) log = (None, x, log)"
      by (simp add: prepareOutputFp_def)
    from ExportSpans_after_prepare [OF assms(2,3) this] a(2) pos wr [of "currentSize x"]
    show ?thesis by simp
  qed
  have 2: "log1 \<noteq> [] \<and> last log1 = CreateFile f1
       \<and> ExportSpans w m e x protoSpans log =
           (if fsFails e log1 (WriteFile f1 buf)
            then Some (CannotWriteSpans (length protoSpans)) else None,
            x1\<lparr>outputLastWriteAt := nowWrite e, currentSize := int (length buf)\<rparr>,
            log1 @ [WriteFile f1 buf])"
    if b: "prepareOutputFp w e x (int (length buf)) log = (None, x1, log1)"
      "outputFp x1 = Some f1" "currentSize x1 = 0"
  proof -
    have ns: "\<not> (currentOutputHour e = outputHour x \<and> currentSize x \<noteq> 0
        \<and> wrap_int w (currentSize x + int (length buf)) \<le> fileSizeLimit (cfg x))"
    proof
      assume "currentOutputHour e = outputHour x \<and> currentSize x \<noteq> 0
        \<and> wrap_int w (currentSize x + int (length buf)) \<le> fileSizeLimit (cfg x)"
      with b(1) have "x1 = x" "currentSize x \<noteq> 0" by (simp_all add: prepareOutputFp_def)
      with b(3) show False by simp
    qed
    from prepareOutputFp_fresh [OF ns b(1,2)]
    have "log1 \<noteq> [] \<and> last log1 = CreateFile f1" .
    moreover from ExportSpans_after_prepare [OF assms(2,3) b(1)] b(2,3) wr [of 0] nn
    have "ExportSpans w m e x protoSpans log =
           (if fsFails e log1 (WriteFile f1 buf)
            then Some (CannotWriteSpans (length protoSpans)) else None,
            x1\<lparr>outputLastWriteAt := nowWrite e, currentSize := int (length buf)\<rparr>,
            log1 @ [WriteFile f1 buf])"
      by simp
    ultimately show ?thesis by simp
  qed
  from 1 2 show ?thesis by blast
qed


theorem rotation_stay_open_witness:
  "NewFilesTraceExporter [WithBaseFolderPath ''spool'', WithFileSizeLimit 1024]
     = Inr (exporter_with example_cfg)
   \<and> ExportSpans W64 Some (example_env no_failures) (exporter_with example_cfg) [[1]] []
     = (None, example_started, example_started_log)
   \<and> ExportSpans W64 Some (example_env no_failures) example_started [[1]] example_started_log
     = (None, example_started\<lparr>outputLastWriteAt := 1700000001, currentSize := 18\<rparr>,
        example_started_log @ [WriteFile ''spool/0sq9s/0000'' [1,0,0,0, 1,0,0,0, 1]])
   \<and> ExportSpans W64 Some (example_env no_failures) example_started [replicate 1100 7]
         example_started_log
     = (None,
        \<lparr>cfg = example_cfg, outputFolderPath = ''spool/0sq9s'',
         indexFilePath = ''spool/0sq9s/_index'', outputHour = 472222, outputSn = 1,
         outputFileName = ''000g'', outputFp = Some ''spool/0sq9s/000g'',
         outputStartAt = 1700000000, outputLastWriteAt = 1700000001, currentSize = 1108\<rparr>,
        example_started_log
          @ [CloseFile ''spool/0sq9s/0000'', OpenIndexFile ''spool/0sq9s/_index'',
             WriteIndexRecord ''spool/0sq9s/_index'' ''0000'' 1700000000 1700000001,
             CreateFile ''spool/0sq9s/000g'',
             WriteFile ''spool/0sq9s/000g'' ([1,0,0,0, 76,4,0,0] @ replicate 1100 7)])"
proof -
  have n: "NewFilesTraceExporter [WithBaseFolderPath ''spool'', WithFileSizeLimit 1024]
      = Inr (exporter_with example_cfg)"
    by (simp add: NewFilesTraceExporter_def WithBaseFolderPath_def WithFileSizeLimit_def
          example_cfg_def DefaultRetainHours_def)
  have e1: "ExportSpans W64 Some (example_env no_failures) (exporter_with example_cfg) [[1]] []
      = (None, example_started, example_started_log)"
    by code_simp
  have r: "reachable W64 Some example_started"
    by (rule reachable.exported [OF reachable.created [OF n] e1])
       (simp add: ev_marshal_one sum_fits_def int_bits_def exporter_with_def)
  have h: "currentOutputHour (example_env no_failures) = outputHour example_started"
    by (simp add: ev_hour example_started_def)
  have p: "prepareOutputFp W64 (example_env no_failures) example_started 1108 example_started_log
      = (None,
         \<lparr>cfg = example_cfg, outputFolderPath = ''spool/0sq9s'',
          indexFilePath = ''spool/0sq9s/_index'', outputHour = 472222, outputSn = 1,
          outputFileName = ''000g'', outputFp = Some ''spool/0sq9s/000g'',
          outputStartAt = 1700000000, outputLastWriteAt = 1700000000, currentSize = 0\<rparr>,
         example_started_log
           @ [CloseFile ''spool/0sq9s/0000'', OpenIndexFile ''spool/0sq9s/_index'',
              WriteIndexRecord ''spool/0sq9s/_index'' ''0000'' 1700000000 1700000001,
              CreateFile ''spool/0sq9s/000g''])"
    by code_simp
  from rotation_stay_open [OF r _ ev_marshal_one, where e = "example_env no_failures"
      and f = "''spool/0sq9s/0000''" and log = example_started_log] h
  have a: "ExportSpans W64 Some (example_env no_failures) example_started [[1]]
        example_started_log
     = (None, example_started\<lparr>outputLastWriteAt := 1700000001, currentSize := 18\<rparr>,
        example_started_log @ [WriteFile ''spool/0sq9s/0000'' [1,0,0,0, 1,0,0,0, 1]])"
    by (simp add: example_started_def example_cfg_def example_env_def no_failures_def
          sum_fits_def int_bits_def)
  from rotation_stay_open [OF r _ ev_marshal_big, where e = "example_env no_failures"
      and log = example_started_log
      and ?f1.0 = "''spool/0sq9s/000g''"
      and ?x1.0 = "\<lparr>cfg = example_cfg, outputFolderPath = ''spool/0sq9s'',
          indexFilePath = ''spool/0sq9s/_index'', outputHour = 472222, outputSn = 1,
          outputFileName = ''000g'', outputFp = Some ''spool/0sq9s/000g'',
          outputStartAt = 1700000000, outputLastWriteAt = 1700000000, currentSize = 0\<rparr>"
      and ?log1.0 = "example_started_log
           @ [CloseFile ''spool/0sq9s/0000'', OpenIndexFile ''spool/0sq9s/_index'',
              WriteIndexRecord ''spool/0sq9s/_index'' ''0000'' 1700000000 1700000001,
              CreateFile ''spool/0sq9s/000g'']"] p
  have b: "ExportSpans W64 Some (example_env no_failures) example_started [replicate 1100 7]
         example_started_log
     = (None,
        \<lparr>cfg = example_cfg, outputFolderPath = ''spool/0sq9s'',
         indexFilePath = ''spool/0sq9s/_index'', outputHour = 472222, outputSn = 1,
         outputFileName = ''000g'', outputFp = Some ''spool/0sq9s/000g'',
         outputStartAt = 1700000000, outputLastWriteAt = 1700000001, currentSize = 1108\<rparr>,
        example_started_log
          @ [CloseFile ''spool/0sq9s/0000'', OpenIndexFile ''spool/0sq9s/_index'',
             WriteIndexRecord ''spool/0sq9s/_index'' ''0000'' 1700000000 1700000001,
             CreateFile ''spool/0sq9s/000g'',
             WriteFile ''spool/0sq9s/000g'' ([1,0,0,0, 76,4,0,0] @ replicate 1100 7)])"
    by (simp add: example_started_def example_cfg_def example_env_def no_failures_def
          sum_fits_def int_bits_def)
  from n e1 a b show ?thesis by simp
qed


text \<open>Claim C6. Take an export call that does not stay on the open file. If
  \<open>prepareOutputFp\<close> returns without error and the serial number it leaves, which is the one
  its last part tested for the next file, is above \<open>0x7FFFFFFD\<close>, then no file is open, the
  call has neither created nor written a segment file, and \<open>ExportSpans\<close> returns no error:
  the batch is dropped. This is what happens in the unchanged hour and folder when closing
  succeeds and leaves a serial number above \<open>0x7FFFFFFD\<close>. (A new folder starts at serial
  0, so the valve is met in an unchanged folder only.)\<close>

theorem serial_exhaustion_drops:
  assumes "protoSpans \<noteq> []" "marshalSpans m protoSpans = Inr buf"
    and "\<not> (currentOutputHour e = outputHour x \<and> currentSize x \<noteq> 0
            \<and> wrap_int w (currentSize x + int (length buf)) \<le> fileSizeLimit (cfg x))"
  shows "(prepareOutputFp w e x (int (length buf)) log = (None, x1, log1)
          \<and> sint (outputSn x1) > outputSnBoundary
          \<longrightarrow> ExportSpans w m e x protoSpans log = (None, x1, log1)
              \<and> outputFp x1 = None
              \<and> (\<exists>ops. log1 = log @ ops \<and> list_all (\<lambda>op. \<not> opens_or_writes op) ops))
       \<and> (currentOutputHour e = outputHour x \<and> outputFolderPath x \<noteq> []
          \<and> closeOutputFile e x log = (None, x2, log2)
          \<and> sint (outputSn x2) > outputSnBoundary
          \<longrightarrow> prepareOutputFp w e x (int (length buf)) log = (None, x2, log2))"
proof (intro conjI impI)
  assume a: "prepareOutputFp w e x (int (length buf)) log = (None, x1, log1)
      \<and> sint (outputSn x1) > outputSnBoundary"
  then have p: "prepareOutputFp w e x (int (length buf)) log = (None, x1, log1)"
    and sn: "sint (outputSn x1) > outputSnBoundary"
    by simp_all
  from prepareOutputFp_valve [OF assms(3) p sn]
  show "outputFp x1 = None"
    "\<exists>ops. log1 = log @ ops \<and> list_all (\<lambda>op. \<not> opens_or_writes op) ops"
    by simp_all
  with ExportSpans_after_prepare [OF assms(1,2) p]
  show "ExportSpans w m e x protoSpans log = (None, x1, log1)" by simp
next
  assume b: "currentOutputHour e = outputHour x \<and> outputFolderPath x \<noteq> []
      \<and> closeOutputFile e x log = (None, x2, log2)
      \<and> sint (outputSn x2) > outputSnBoundary"
  then have h: "currentOutputHour e = outputHour x"
    and c: "closeOutputFile e x log = (None, x2, log2)"
    by simp_all
  from assms(3) h have ns: "\<not> (currentSize x \<noteq> 0
      \<and> wrap_int w (currentSize x + int (length buf)) \<le> fileSizeLimit (cfg x))"
    by simp
  from b have o: "openOutputFile e x2 log2 = (None, x2, log2)"
    by (simp add: openOutputFile_def)
  from closeOutputFile_facts(3) [OF c] b have "outputFolderPath x2 \<noteq> []" by simp
  with prepareOutputFp_same_hour [OF h ns c] o
  show "prepareOutputFp w e x (int (length buf)) log = (None, x2, log2)"
    by simp
qed

theorem serial_exhaustion_drops_witness:
  "ExportSpans W64 Some (example_env no_failures) (example_open 0x7FFFFFFD 1020) [[1]] []
     = (None,
        \<lparr>cfg = example_cfg, outputFolderPath = ''spool/0sq9s'',
         indexFilePath = ''spool/0sq9s/_index'', outputHour = 472222, outputSn = 0x7FFFFFFE,
         outputFileName = ''fvvvvv8'', outputFp = None,
         outputStartAt = 1699999999, outputLastWriteAt = 1699999999, currentSize = 0\<rparr>,
        [CloseFile ''spool/0sq9s/fvvvvv8'', OpenIndexFile ''spool/0sq9s/_index'',
         WriteIndexRecord ''spool/0sq9s/_index'' ''fvvvvv8'' 1699999999 1699999999])"
proof -
  let ?x1 = "\<lparr>cfg = example_cfg, outputFolderPath = ''spool/0sq9s'',
         indexFilePath = ''spool/0sq9s/_index'', outputHour = 472222, outputSn = 0x7FFFFFFE,
         outputFileName = ''fvvvvv8'', outputFp = None,
         outputStartAt = 1699999999, outputLastWriteAt = 1699999999, currentSize = 0\<rparr>"
  let ?log1 = "[CloseFile ''spool/0sq9s/fvvvvv8'', OpenIndexFile ''spool/0sq9s/_index'',
         WriteIndexRecord ''spool/0sq9s/_index'' ''fvvvvv8'' 1699999999 1699999999]"
  have h: "currentOutputHour (example_env no_failures) = outputHour (example_open 0x7FFFFFFD 1020)"
    by (simp add: ev_hour example_open_def)
  have w: "wrap_int W64 n = n" if "0 \<le> n" "n < 10000" for n
    using that by (intro wrap_int_id) (simp_all add: int_bits_def)
  have ns: "\<not> (currentOutputHour (example_env no_failures) = outputHour (example_open 0x7FFFFFFD 1020)
      \<and> currentSize (example_open 0x7FFFFFFD 1020) \<noteq> 0
      \<and> wrap_int W64 (currentSize (example_open 0x7FFFFFFD 1020) + int (length [1,0,0,0, 1,0,0,0, 1 :: byte]))
          \<le> fileSizeLimit (cfg (example_open 0x7FFFFFFD 1020)))"
    by (simp add: example_open_def example_cfg_def w)
  have c: "closeOutputFile (example_env no_failures) (example_open 0x7FFFFFFD 1020) []
      = (None, ?x1, ?log1)"
    by code_simp
  have f: "outputFolderPath (example_open 0x7FFFFFFD 1020) \<noteq> []"
    by (simp add: example_open_def)
  have sn: "sint (outputSn ?x1) > outputSnBoundary"
    by (simp add: outputSnBoundary_def)
  note th = serial_exhaustion_drops [OF _ ev_marshal_one ns, where ?x1.0 = ?x1
      and ?log1.0 = ?log1 and ?x2.0 = ?x1 and ?log2.0 = ?log1 and log = "[]"]
  from th h f c sn
  have "prepareOutputFp W64 (example_env no_failures) (example_open 0x7FFFFFFD 1020)
      (int (length [1,0,0,0, 1,0,0,0, 1 :: byte])) [] = (None, ?x1, ?log1)"
    by blast
  with th sn show ?thesis by blast
qed

text \<open>Claim C7. The folders that a call of \<open>prepareOutputFp\<close> hands to \<open>os.RemoveAll\<close> are
  none, unless the call changes the folder and gets as far as opening the new file; then they
  are the purge targets: at most 2 folders, only those of the hours \<open>expiredBase\<close> and
  \<open>expiredBase - 1\<close> masked to 24 bits, none when \<open>retainHours < 1\<close>, none when
  \<open>expiredBase\<close> is negative. Whether removals fail changes nothing in what the rotation
  returns, the state it leaves, or the operations it attempts.\<close>

theorem purge_bound:
  assumes "prepareOutputFp w e x S log = (err, x', log')"
  shows "removals log' = removals log
           @ (if currentOutputHour e \<noteq> outputHour x
                 \<and> (err = None \<or> err = Some CannotCreateOutputFile)
              then purge_targets e x else [])
       \<and> length (purge_targets e x) \<le> 2
       \<and> set (purge_targets e x)
           \<subseteq> {makeOutputFolderPath e x (expiredHourBase e x AND 0xFFFFFF),
               makeOutputFolderPath e x ((expiredHourBase e x - 1) AND 0xFFFFFF)}
       \<and> (sint (retainHours (cfg x)) < 1 \<longrightarrow> purge_targets e x = [])
       \<and> (sint (expiredHourBase e x) < 0 \<longrightarrow> purge_targets e x = [])
       \<and> (\<forall>f2. (\<forall>l op. \<not> is_removal op \<longrightarrow> f2 l op = fsFails e l op)
             \<longrightarrow> prepareOutputFp w (e\<lparr>fsFails := f2\<rparr>) x S log = (err, x', log'))"
proof -
  have 1: "removals log' = removals log
           @ (if currentOutputHour e \<noteq> outputHour x
                 \<and> (err = None \<or> err = Some CannotCreateOutputFile)
              then purge_targets e x else [])"
  proof (cases "currentOutputHour e = outputHour x")
    case True
    from prepareOutputFp_removals_same_hour [OF True assms] True show ?thesis by simp
  next
    case False
    from prepareOutputFp_removals_new_hour [OF False assms] False show ?thesis by simp
  qed
  have 2: "length (purge_targets e x) \<le> 2"
    by (simp add: purge_targets_def)
  have 3: "set (purge_targets e x)
           \<subseteq> {makeOutputFolderPath e x (expiredHourBase e x AND 0xFFFFFF),
               makeOutputFolderPath e x ((expiredHourBase e x - 1) AND 0xFFFFFF)}"
    by (simp add: purge_targets_def)
  have 4: "sint (retainHours (cfg x)) < 1 \<longrightarrow> purge_targets e x = []"
    "sint (expiredHourBase e x) < 0 \<longrightarrow> purge_targets e x = []"
    by (simp_all add: purge_targets_def)
  have 5: "\<forall>f2. (\<forall>l op. \<not> is_removal op \<longrightarrow> f2 l op = fsFails e l op)
             \<longrightarrow> prepareOutputFp w (e\<lparr>fsFails := f2\<rparr>) x S log = (err, x', log')"
    using prepareOutputFp_indep [of _ e w x S log] assms by simp
  from 1 2 3 4 5 show ?thesis by blast
qed

theorem purge_bound_witness:
  "removals (snd (snd (prepareOutputFp W64 (example_env removals_fail)
       (exporter_with example_cfg) 9 [])))
     = [''spool/0sq9a'', ''spool/0sq98'']
   \<and> prepareOutputFp W64 ((example_env removals_fail)\<lparr>fsFails := no_failures\<rparr>)
       (exporter_with example_cfg) 9 []
     = prepareOutputFp W64 (example_env removals_fail) (exporter_with example_cfg) 9 []"
proof -
  have p: "prepareOutputFp W64 (example_env removals_fail) (exporter_with example_cfg) 9 []
      = (None,
         \<lparr>cfg = example_cfg, outputFolderPath = ''spool/0sq9s'',
          indexFilePath = ''spool/0sq9s/_index'', outputHour = 472222, outputSn = 0,
          outputFileName = ''0000'', outputFp = Some ''spool/0sq9s/0000'',
          outputStartAt = 1700000000, outputLastWriteAt = 1700000000, currentSize = 0\<rparr>,
         [MkdirAll ''spool/0sq9s'', RemoveAll ''spool/0sq9a'', RemoveAll ''spool/0sq98'',
          CreateFile ''spool/0sq9s/0000''])"
    by code_simp
  have t: "purge_targets (example_env removals_fail) (exporter_with example_cfg)
      = [''spool/0sq9a'', ''spool/0sq98'']"
    by code_simp
  have h: "currentOutputHour (example_env removals_fail)
      \<noteq> outputHour (exporter_with example_cfg)"
    by (simp add: ev_hour exporter_with_def)
  have a: "\<forall>l op. \<not> is_removal op \<longrightarrow> no_failures l op = fsFails (example_env removals_fail) l op"
    by (simp add: no_failures_def example_env_def removals_fail_def)
  note th = purge_bound [OF p]
  from th h t have 1: "removals (snd (snd (prepareOutputFp W64 (example_env removals_fail)
       (exporter_with example_cfg) 9 []))) = [''spool/0sq9a'', ''spool/0sq98'']"
    by (simp add: p)
  from th a have 2: "prepareOutputFp W64 ((example_env removals_fail)\<lparr>fsFails := no_failures\<rparr>)
       (exporter_with example_cfg) 9 []
     = prepareOutputFp W64 (example_env removals_fail) (exporter_with example_cfg) 9 []"
    unfolding p by blast
  from 1 2 show ?thesis by simp
qed

text \<open>Claim C9. When \<open>prepareOutputFp\<close> has returned without error and a file is open,
  \<open>ExportSpans\<close> returns the write's error if the write fails and no error otherwise, and in
  both cases leaves the same state: the last-write time is the clock's and the accumulated
  size has grown by the length of the whole encoded buffer (the sum itself when it does not
  overflow \<open>int\<close>).\<close>

theorem failed_write_updates_state:
  assumes "protoSpans \<noteq> []" "marshalSpans m protoSpans = Inr buf"
    and "prepareOutputFp w e x (int (length buf)) log = (None, x1, log1)"
    and "outputFp x1 = Some f"
  shows "ExportSpans w m e x protoSpans log =
           (if fsFails e log1 (WriteFile f buf)
            then Some (CannotWriteSpans (length protoSpans)) else None,
            x1\<lparr>outputLastWriteAt := nowWrite e,
               currentSize := wrap_int w (currentSize x1 + int (length buf))\<rparr>,
            log1 @ [WriteFile f buf])
       \<and> (- (2 ^ (int_bits w - 1)) \<le> currentSize x1 + int (length buf)
            \<and> currentSize x1 + int (length buf) < 2 ^ (int_bits w - 1)
          \<longrightarrow> wrap_int w (currentSize x1 + int (length buf))
                = currentSize x1 + int (length buf))"
  using ExportSpans_after_prepare [OF assms(1,2,3)] assms(4) by (simp add: wrap_int_id)

theorem failed_write_updates_state_witness:
  "ExportSpans W64 Some (example_env writes_fail) (example_open 0 100) [[1]] []
     = (Some (CannotWriteSpans 1),
        (example_open 0 100)\<lparr>outputLastWriteAt := 1700000001, currentSize := 109\<rparr>,
        [WriteFile ''spool/0sq9s/0000'' [1,0,0,0, 1,0,0,0, 1]])"
proof -
  have p: "prepareOutputFp W64 (example_env writes_fail) (example_open 0 100)
      (int (length [1,0,0,0, 1,0,0,0, 1 :: byte])) [] = (None, example_open 0 100, [])"
    by code_simp
  have fp: "outputFp (example_open 0 100) = Some ''spool/0sq9s/0000''"
    by (simp add: example_open_def ev_names)
  have w: "wrap_int W64 109 = 109"
    by (intro wrap_int_id) (simp_all add: int_bits_def)
  from failed_write_updates_state [OF _ ev_marshal_one p fp] show ?thesis
    by (simp add: example_env_def writes_fail_def example_open_def w)
qed

end
